theory Spec2Isabelle
  imports Complex_Main "HOL-Library.Multiset" "HOL-Library.Sublist"
begin

section \<open>Data model\<close>

text \<open>
  The prompt-context retrieval engine of the Concerto editor extension: the agent planner
  (\<^verbatim>\<open>agentPlanner\<close>, \<^verbatim>\<open>inlineRequestPrompt\<close>, \<^verbatim>\<open>modelRequestPrompt\<close>) and the embedding
  utilities (\<^verbatim>\<open>cosineSimilarity\<close>, the three \<^verbatim>\<open>fetchRelevant...\<close> functions,
  \<^verbatim>\<open>generateEmbeddingPrompt\<close>, \<^verbatim>\<open>extractNamespaces\<close>, \<^verbatim>\<open>generateCTOImports\<close>).

  A JavaScript string is a \<open>string\<close>, one \<open>char\<close> for each code unit (the texts considered
  stay below code unit 256). A thrown exception is the \<open>Inl\<close> of a sum.
\<close>

datatype error =
    Error string        \<comment> \<open>\<^verbatim>\<open>throw new Error(message)\<close>\<close>
  | RangeError          \<comment> \<open>raised by the vector library on ill-sized arguments\<close>

definition MissingDocument :: error where
  "MissingDocument = Error ''Required documents are missing''"

definition UnsupportedRequestType :: error where
  "UnsupportedRequestType = Error ''Unsupported request type''"

text \<open>
  \<^verbatim>\<open>documents.main\<close>: the text and the cursor offset. The planner tests the offset for
  truthiness, so an absent offset (\<^verbatim>\<open>undefined\<close>) is \<open>None\<close>; offsets are integers.
\<close>

record DocumentDetails =
  content :: string
  cursorPosition :: "int option"

text \<open>
  An entry of \<^verbatim>\<open>documents.contextDocuments\<close>; the code reads \<^verbatim>\<open>?.content\<close>, which may be
  \<^verbatim>\<open>undefined\<close>.
\<close>

record ContextDocument =
  fileName :: string
  docContent :: "string option"

record Documents =
  main :: DocumentDetails
  contextDocuments :: "ContextDocument list option"

text \<open>
  A corpus entry of \<^verbatim>\<open>ModelsEmbeddingsData\<close>. The code reaches the stored vectors through
  the optional chains \<^verbatim>\<open>obj.gemini?.embeddings?.embedding\<close> and \<^verbatim>\<open>obj.openai?.embeddings\<close>;
  a chain is \<open>None\<close> when any link of it is absent, and the array it ends in otherwise.
\<close>

record ModelEmbeddings =
  fileContent :: string
  modelFileName :: string            \<comment> \<open>\<^verbatim>\<open>obj.fileName\<close>\<close>
  gemini :: "real list option"
  openai :: "real list option"

text \<open>
  An entry of \<^verbatim>\<open>TemplateEmbeddings\<close>: \<^verbatim>\<open>template.grammar\<close> with its content and the chains
  \<^verbatim>\<open>embeddings?.gemini?.embedding\<close> and \<^verbatim>\<open>embeddings?.openai\<close>, and the chain
  \<^verbatim>\<open>template.sample?.content\<close>.
\<close>

record TemplateGrammar =
  grammarContent :: string           \<comment> \<open>\<^verbatim>\<open>grammar.content\<close>\<close>
  grammarGemini :: "real list option"
  grammarOpenai :: "real list option"

record Template =
  grammar :: "TemplateGrammar option"
  sampleContent :: "string option"

record PromptConfig =
  requestType :: string
  language :: string
  instruction :: "string option"

record ModelConfig =
  provider :: string
  llmModel :: string
  apiUrl :: string
  accessToken :: string

record AgentPlannerParams =
  documents :: Documents
  promptConfig :: PromptConfig
  config :: ModelConfig

text \<open>
  The string enums \<^verbatim>\<open>RequestType\<close> and \<^verbatim>\<open>Language\<close> are declared in \<^verbatim>\<open>../utils/types\<close>,
  which is not among the sources: their values are parameters of the planner.
\<close>

record RequestTypeEnum =
  Inline :: string
  Fix :: string
  General :: string
  Model :: string
  Grammar :: string

record LanguageEnum =
  Concerto :: string

text \<open>
  The template renderers and the embedding gateway are imported modules that are not among
  the sources. They are parameters; \<open>'r\<close> is the rendered prompt (an array of role-tagged
  messages). The gateway and the two asynchronous renderers may reject.
\<close>

record 'r collaborators =
  getInlineTemplate :: "string \<Rightarrow> string \<Rightarrow> PromptConfig \<Rightarrow> 'r"
  getConcertoInlineTemplate :: "string \<Rightarrow> string \<Rightarrow> PromptConfig \<Rightarrow> 'r"
  getFixTemplate :: "string \<Rightarrow> PromptConfig \<Rightarrow> 'r"
  getGeneralTemplate :: "PromptConfig \<Rightarrow> 'r"
  getGrammarTemplate :: "Documents \<Rightarrow> error + 'r"
  getConcertoModelTemplate :: "Documents \<Rightarrow> real list \<Rightarrow> string \<Rightarrow> error + 'r"
  generateEmbeddingsByProvider :: "string \<Rightarrow> ModelConfig \<Rightarrow> string \<Rightarrow> error + real list"

text \<open>The calls to the collaborators that a run of the planner makes, in order.\<close>

datatype call =
    CallInlineTemplate
  | CallConcertoInlineTemplate
  | CallFixTemplate
  | CallGeneralTemplate
  | CallGrammarTemplate
  | CallConcertoModelTemplate
  | CallGenerateEmbeddings string   \<comment> \<open>the network call, with the text to embed\<close>

section \<open>JavaScript primitives\<close>

text \<open>
  \<^verbatim>\<open>s.slice(start, end)\<close> on integers: a negative index counts from the end, both indices
  are clamped to the string, and an absent \<^verbatim>\<open>end\<close> is the length.
\<close>

definition slice_index :: "nat \<Rightarrow> int \<Rightarrow> nat" where
  "slice_index len i = (if i < 0 then nat (max (int len + i) 0) else min (nat i) len)"

definition slice :: "'a list \<Rightarrow> int \<Rightarrow> int option \<Rightarrow> 'a list" where
  "slice s start end =
     (let len = length s;
          from = slice_index len start;
          to = (case end of None \<Rightarrow> len | Some e \<Rightarrow> slice_index len e)
      in take (to - from) (drop from s))"

text \<open>A template literal \<^verbatim>\<open>`${x}`\<close> of a string that may be \<^verbatim>\<open>undefined\<close>.\<close>

definition interpolate :: "string option \<Rightarrow> string" where
  "interpolate x = (case x of None \<Rightarrow> ''undefined'' | Some s \<Rightarrow> s)"

text \<open>\<^verbatim>\<open>!x\<close> on a string that may be \<^verbatim>\<open>undefined\<close>: the empty string is falsy too.\<close>

definition falsy :: "string option \<Rightarrow> bool" where
  "falsy x = (case x of None \<Rightarrow> True | Some s \<Rightarrow> s = [])"

section \<open>Context extractor\<close>

text \<open>\<^verbatim>\<open>contextDocuments?.find(doc => doc.fileName === name)?.content\<close>\<close>

definition findContent :: "ContextDocument list option \<Rightarrow> string \<Rightarrow> string option" where
  "findContent cds name =
     (case cds of
        None \<Rightarrow> None
      | Some ds \<Rightarrow>
          (case List.find (\<lambda>doc. fileName doc = name) ds of
             None \<Rightarrow> None
           | Some doc \<Rightarrow> docContent doc))"

text \<open>
  \<^verbatim>\<open>generateEmbeddingPrompt(documents, requestType)\<close>. A caller may leave the second argument
  out; the parameter is then \<^verbatim>\<open>undefined\<close>, here \<open>None\<close>, and equals neither literal.
\<close>

definition generateEmbeddingPrompt :: "Documents \<Rightarrow> string option \<Rightarrow> error + string" where
  "generateEmbeddingPrompt docs reqType =
     (if reqType = Some ''grammar'' then
        (let sampleContent = findContent (contextDocuments docs) ''sample.md''
         in Inr (interpolate sampleContent))
      else if reqType = Some ''model'' then
        (let grammarContent = findContent (contextDocuments docs) ''grammar.tem.md'';
             packageContent = findContent (contextDocuments docs) ''package.json''
         in if falsy grammarContent \<or> falsy packageContent then Inl MissingDocument
            else Inr (interpolate grammarContent @ '' '' @ interpolate packageContent))
      else Inr '''')"

section \<open>Agent planner\<close>

text \<open>
  \<^verbatim>\<open>inlineRequestPrompt\<close>: a falsy cursor position (absent, or 0) is replaced by the length
  of the content before the two slices are taken.
\<close>

definition inlineRequestPrompt ::
  "LanguageEnum \<Rightarrow> 'r collaborators \<Rightarrow> Documents \<Rightarrow> PromptConfig \<Rightarrow> 'r" where
  "inlineRequestPrompt L C docs pc =
     (let text = content (main docs);
          cp = (case cursorPosition (main docs) of
                  None \<Rightarrow> int (length text)
                | Some c \<Rightarrow> if c = 0 then int (length text) else c);
          beforeCursor = slice text 0 (Some cp);
          afterCursor = slice text cp None
      in if language pc = Concerto L
         then getConcertoInlineTemplate C beforeCursor afterCursor pc
         else getInlineTemplate C beforeCursor afterCursor pc)"

definition inlineRequestCall :: "LanguageEnum \<Rightarrow> PromptConfig \<Rightarrow> call" where
  "inlineRequestCall L pc =
     (if language pc = Concerto L then CallConcertoInlineTemplate else CallInlineTemplate)"

text \<open>
  \<^verbatim>\<open>modelRequestPrompt\<close>: the source calls \<^verbatim>\<open>generateEmbeddingPrompt(documents)\<close> with one
  argument, then awaits the gateway, then renders. The second component lists the calls made.
\<close>

definition modelRequestPrompt ::
  "'r collaborators \<Rightarrow> Documents \<Rightarrow> ModelConfig \<Rightarrow> (error + 'r) \<times> call list" where
  "modelRequestPrompt C docs cfg =
     (case generateEmbeddingPrompt docs None of
        Inl e \<Rightarrow> (Inl e, [])
      | Inr embeddingPrompt \<Rightarrow>
          (case generateEmbeddingsByProvider C (provider cfg) cfg embeddingPrompt of
             Inl e \<Rightarrow> (Inl e, [CallGenerateEmbeddings embeddingPrompt])
           | Inr promptEmbedding \<Rightarrow>
               (getConcertoModelTemplate C docs promptEmbedding (provider cfg),
                [CallGenerateEmbeddings embeddingPrompt, CallConcertoModelTemplate])))"

text \<open>\<^verbatim>\<open>agentPlanner\<close>: the switch on the request type, in the order of its cases.\<close>

definition agentPlanner ::
  "RequestTypeEnum \<Rightarrow> LanguageEnum \<Rightarrow> 'r collaborators \<Rightarrow> AgentPlannerParams
     \<Rightarrow> (error + 'r) \<times> call list" where
  "agentPlanner RT L C params =
     (let docs = documents params;
          pc = promptConfig params;
          cfg = config params;
          text = content (main docs);
          rt = requestType pc
      in if rt = Inline RT then (Inr (inlineRequestPrompt L C docs pc), [inlineRequestCall L pc])
         else if rt = Fix RT then (Inr (getFixTemplate C text pc), [CallFixTemplate])
         else if rt = General RT then (Inr (getGeneralTemplate C pc), [CallGeneralTemplate])
         else if rt = Model RT then modelRequestPrompt C docs cfg
         else if rt = Grammar RT then (getGrammarTemplate C docs, [CallGrammarTemplate])
         else (Inl UnsupportedRequestType, []))"

section \<open>Namespace mapper\<close>

text \<open>The character classes \<^verbatim>\<open>\w\<close> and \<^verbatim>\<open>\s\<close> of a regular expression without flags.\<close>

definition isWordChar :: "char \<Rightarrow> bool" where
  "isWordChar c =
     (let n = (of_char c :: nat)
      in (48 \<le> n \<and> n \<le> 57) \<or> (65 \<le> n \<and> n \<le> 90) \<or> n = 95 \<or> (97 \<le> n \<and> n \<le> 122))"

definition isSpaceChar :: "char \<Rightarrow> bool" where
  "isSpaceChar c =
     (let n = (of_char c :: nat)
      in (9 \<le> n \<and> n \<le> 13) \<or> n = 32 \<or> n = 160)"

definition declKeywords :: "string list" where
  "declKeywords = [''asset'', ''participant'', ''enum'', ''abstract asset'']"

text \<open>
  \<^verbatim>\<open>\s+(\w+)\<close> after a keyword: both quantifiers are greedy and the two classes are
  disjoint, so the match takes the whole run of spaces and the whole run of word characters,
  and fails when either run is empty. The result is the capture and the text after the match.
\<close>

definition matchDeclared :: "string \<Rightarrow> (string \<times> string) option" where
  "matchDeclared r =
     (let spaces = takeWhile isSpaceChar r;
          r1 = dropWhile isSpaceChar r;
          name = takeWhile isWordChar r1
      in if spaces \<noteq> [] \<and> name \<noteq> [] then Some (name, dropWhile isWordChar r1) else None)"

text \<open>The alternation, tried from left to right at one position.\<close>

fun matchAlternatives :: "string list \<Rightarrow> string \<Rightarrow> (string \<times> string) option" where
  "matchAlternatives [] s = None"
| "matchAlternatives (kw # kws) s =
     (if prefix kw s then
        (case matchDeclared (drop (length kw) s) of
           Some m \<Rightarrow> Some m
         | None \<Rightarrow> matchAlternatives kws s)
      else matchAlternatives kws s)"

text \<open>
  The loop \<^verbatim>\<open>while ((match = namespaceRegex.exec(fileContent)) !== null)\<close> of a global
  regular expression: each \<^verbatim>\<open>exec\<close> finds the leftmost match at or after the end of the
  previous one. The argument is the text from the current position on; the flag says whether
  the character before it is a word character, which decides \<^verbatim>\<open>\b\<close> (every keyword begins
  with a word character).
\<close>

function execLoop :: "bool \<Rightarrow> string \<Rightarrow> string list" where
  "execLoop prevWord [] = []"
| "execLoop prevWord (c # cs) =
     (if prevWord then execLoop (isWordChar c) cs
      else
        (case matchAlternatives declKeywords (c # cs) of
           Some (name, rest) \<Rightarrow> name # execLoop True rest
         | None \<Rightarrow> execLoop (isWordChar c) cs))"
  by pat_completeness auto
termination
proof (relation "measure (\<lambda>(p, s). length s)")
  fix prevWord :: bool and c :: char and cs :: string and m name rest
  assume "matchAlternatives declKeywords (c # cs) = Some m" and "(name, rest) = m"
  then have m: "matchAlternatives declKeywords (c # cs) = Some (name, rest)"
    by simp
  have shorter: "length rest < length s"
    if "matchAlternatives kws s = Some (name, rest)" and "[] \<notin> set kws" for kws s
    using that
  proof (induction kws)
    case Nil
    then show ?case by simp
  next
    case (Cons kw kws)
    show ?case
    proof (cases "prefix kw s \<and> matchDeclared (drop (length kw) s) = Some (name, rest)")
      case True
      then have "rest = dropWhile isWordChar (dropWhile isSpaceChar (drop (length kw) s))"
        by (auto simp: matchDeclared_def Let_def split: if_splits)
      then have "length rest \<le> length (drop (length kw) s)"
        by (metis length_dropWhile_le le_trans)
      moreover have "0 < length kw" and "length kw \<le> length s"
        using Cons.prems(2) True by (auto simp: prefix_def)
      ultimately show ?thesis by (simp del: length_greater_0_conv)
    next
      case False
      with Cons.prems have "matchAlternatives kws s = Some (name, rest)"
        by (auto split: if_splits option.splits)
      with Cons show ?thesis by simp
    qed
  qed
  from shorter [OF m] have "length rest < length (c # cs)"
    by (simp add: declKeywords_def)
  then show "((True, rest), (prevWord, c # cs)) \<in> measure (\<lambda>(p, s). length s)"
    by simp
qed auto

definition extractNamespaces :: "string \<Rightarrow> string list" where
  "extractNamespaces text = execLoop False text"

text \<open>\<^verbatim>\<open>s.replace(pattern, replacement)\<close> with a string pattern: the first occurrence only.\<close>

fun replaceFirst :: "string \<Rightarrow> string \<Rightarrow> string \<Rightarrow> string" where
  "replaceFirst pat rep [] = (if pat = [] then rep else [])"
| "replaceFirst pat rep (c # cs) =
     (if prefix pat (c # cs) then rep @ drop (length pat) (c # cs)
      else c # replaceFirst pat rep cs)"

text \<open>\<^verbatim>\<open>values.join(sep)\<close>\<close>

fun join :: "string \<Rightarrow> string list \<Rightarrow> string" where
  "join sep [] = []"
| "join sep [x] = x"
| "join sep (x # y # ys) = x @ sep @ join sep (y # ys)"

text \<open>
  \<^verbatim>\<open>generateCTOImports\<close>. The object \<^verbatim>\<open>namespaceMappings\<close> is the list of its entries in the
  order of \<^verbatim>\<open>Object.entries\<close>; each round of the loop appends to \<^verbatim>\<open>result\<close>.
\<close>

definition importStep :: "string \<Rightarrow> string \<times> string list \<Rightarrow> string" where
  "importStep result entry =
     (case entry of (key, values) \<Rightarrow>
        if length values = 1 then
          result @ ''import org.accordproject.'' @ replaceFirst ''.cto'' '''' key @ ''.''
            @ values ! 0 @ '' from https://models.accordproject.org/accordproject/'' @ key
            @ [CHR 0x0A]
        else if length values > 1 then
          result @ ''import org.accordproject.'' @ replaceFirst ''.cto'' '''' key @ ''.{ ''
            @ join '', '' values @ '' } from https://models.accordproject.org/accordproject/''
            @ key @ [CHR 0x0A]
        else result)"

definition generateCTOImports :: "(string \<times> string list) list \<Rightarrow> string" where
  "generateCTOImports namespaceMappings = foldl importStep [] namespaceMappings"

section \<open>Similarity engine\<close>

text \<open>
  A JavaScript number: \<open>NaN\<close>, an infinity, or a finite number, which is a real.
\<close>

datatype jsnum = NaN | NegInf | Num real | PosInf

text \<open>
  \<^verbatim>\<open>x - y\<close>. For two finite numbers the exact difference stands for the rounded one: the
  machine may round the difference or let it overflow, but the result keeps the sign of the
  exact difference and is zero for equal numbers only, and the sort below reads nothing but
  that sign.
\<close>

fun js_sub :: "jsnum \<Rightarrow> jsnum \<Rightarrow> jsnum" where
  "js_sub NaN y = NaN"
| "js_sub x NaN = NaN"
| "js_sub (Num a) (Num b) = Num (a - b)"
| "js_sub PosInf PosInf = NaN"
| "js_sub NegInf NegInf = NaN"
| "js_sub PosInf y = PosInf"
| "js_sub NegInf y = NegInf"
| "js_sub (Num a) PosInf = NegInf"
| "js_sub (Num a) NegInf = PosInf"

text \<open>\<^verbatim>\<open>v < 0\<close>, \<^verbatim>\<open>v > 0\<close> and \<^verbatim>\<open>x >= y\<close>: every comparison with \<open>NaN\<close> is false.\<close>

fun js_negative :: "jsnum \<Rightarrow> bool" where
  "js_negative NegInf = True"
| "js_negative (Num r) = (r < 0)"
| "js_negative v = False"

fun js_positive :: "jsnum \<Rightarrow> bool" where
  "js_positive PosInf = True"
| "js_positive (Num r) = (0 < r)"
| "js_positive v = False"

fun js_ge :: "jsnum \<Rightarrow> jsnum \<Rightarrow> bool" where
  "js_ge NaN y = False"
| "js_ge x NaN = False"
| "js_ge PosInf y = True"
| "js_ge x NegInf = True"
| "js_ge (Num a) (Num b) = (b \<le> a)"
| "js_ge x y = False"

text \<open>
  \<^verbatim>\<open>cosineSimilarity\<close> calls \<^verbatim>\<open>math.dot\<close> and \<^verbatim>\<open>math.norm\<close> of the mathjs library, which is
  not among the sources, and multiplies and divides floating-point numbers. The two library
  functions and the two machine operations are parameters: nothing is assumed about their
  rounding, overflow or underflow, and the library functions may raise.
\<close>

record numerics =
  math_dot :: "real list \<Rightarrow> real list \<Rightarrow> error + jsnum"
  math_norm :: "real list \<Rightarrow> error + jsnum"
  multiply :: "jsnum \<Rightarrow> jsnum \<Rightarrow> jsnum"
  quotient :: "jsnum \<Rightarrow> jsnum \<Rightarrow> jsnum"

definition cosineSimilarity :: "numerics \<Rightarrow> real list \<Rightarrow> real list \<Rightarrow> error + jsnum" where
  "cosineSimilarity M vec1 vec2 =
     (case math_dot M vec1 vec2 of
        Inl e \<Rightarrow> Inl e
      | Inr dotProduct \<Rightarrow>
          (case math_norm M vec1 of
             Inl e \<Rightarrow> Inl e
           | Inr normVec1 \<Rightarrow>
               (case math_norm M vec2 of
                  Inl e \<Rightarrow> Inl e
                | Inr normVec2 \<Rightarrow>
                    Inr (quotient M dotProduct (multiply M normVec1 normVec2)))))"

text \<open>
  \<^verbatim>\<open>array.sort(compareFn)\<close>. The language fixes the result where the comparator is consistent
  on the elements of the array: \<^verbatim>\<open>compareFn(x, y) < 0\<close> puts \<open>x\<close> before \<open>y\<close>, elements that
  compare as equal keep their order, and a \<open>NaN\<close> from the comparator counts as 0. The three
  relations of a comparator and its consistency are those of the language definition.
\<close>

definition precedes :: "('a \<Rightarrow> 'a \<Rightarrow> jsnum) \<Rightarrow> 'a \<Rightarrow> 'a \<Rightarrow> bool" where
  "precedes cmp a b = js_negative (cmp a b)"

definition follows :: "('a \<Rightarrow> 'a \<Rightarrow> jsnum) \<Rightarrow> 'a \<Rightarrow> 'a \<Rightarrow> bool" where
  "follows cmp a b = js_positive (cmp a b)"

definition ties :: "('a \<Rightarrow> 'a \<Rightarrow> jsnum) \<Rightarrow> 'a \<Rightarrow> 'a \<Rightarrow> bool" where
  "ties cmp a b = (\<not> js_negative (cmp a b) \<and> \<not> js_positive (cmp a b))"

definition consistentOn :: "('a \<Rightarrow> 'a \<Rightarrow> jsnum) \<Rightarrow> 'a set \<Rightarrow> bool" where
  "consistentOn cmp S \<longleftrightarrow>
     (\<forall>a \<in> S. ties cmp a a) \<and>
     (\<forall>a \<in> S. \<forall>b \<in> S. ties cmp a b \<longrightarrow> ties cmp b a) \<and>
     (\<forall>a \<in> S. \<forall>b \<in> S. \<forall>c \<in> S.
        (ties cmp a b \<and> ties cmp b c \<longrightarrow> ties cmp a c) \<and>
        (precedes cmp a b \<and> precedes cmp b c \<longrightarrow> precedes cmp a c) \<and>
        (follows cmp a b \<and> follows cmp b c \<longrightarrow> follows cmp a c))"

text \<open>The stable sort, by insertion: an element goes behind those it does not precede.\<close>

fun insertBy :: "('a \<Rightarrow> 'a \<Rightarrow> jsnum) \<Rightarrow> 'a \<Rightarrow> 'a list \<Rightarrow> 'a list" where
  "insertBy cmp x [] = [x]"
| "insertBy cmp x (y # ys) =
     (if js_negative (cmp x y) then x # y # ys else y # insertBy cmp x ys)"

definition stableSort :: "('a \<Rightarrow> 'a \<Rightarrow> jsnum) \<Rightarrow> 'a list \<Rightarrow> 'a list" where
  "stableSort cmp xs = foldl (\<lambda>sorted x. insertBy cmp x sorted) [] xs"

text \<open>
  Where the comparator is not consistent, the order of the result is left to the engine. The
  engine is a parameter: from the comparator on the positions and the length of the array
  it gives the positions in their new order. The result is a rearrangement of the array
  whatever the engine does.
\<close>

type_synonym engine = "(nat \<Rightarrow> nat \<Rightarrow> jsnum) \<Rightarrow> nat \<Rightarrow> nat list"

definition sortBy :: "engine \<Rightarrow> ('a \<Rightarrow> 'a \<Rightarrow> jsnum) \<Rightarrow> 'a list \<Rightarrow> 'a list" where
  "sortBy E cmp xs =
     (if consistentOn cmp (set xs) then stableSort cmp xs
      else
        (let positions = E (\<lambda>i j. cmp (xs ! i) (xs ! j)) (length xs)
         in if mset positions = mset [0..<length xs] then map (\<lambda>i. xs ! i) positions
            else xs))"

text \<open>The comparator \<^verbatim>\<open>(a, b) => b[0] - a[0]\<close> of the three ranking functions.\<close>

definition bySimilarity :: "jsnum \<times> 'a \<Rightarrow> jsnum \<times> 'a \<Rightarrow> jsnum" where
  "bySimilarity a b = js_sub (fst b) (fst a)"

text \<open>
  The embedding of a corpus entry for the provider: the first branch whose provider name and
  truthiness test both hold. An array is truthy, also the empty one.
\<close>

definition modelEmbeddingsFor :: "string \<Rightarrow> ModelEmbeddings \<Rightarrow> real list option" where
  "modelEmbeddingsFor prov obj =
     (if prov = ''gemini'' \<and> gemini obj \<noteq> None then gemini obj
      else if prov = ''openai'' \<and> openai obj \<noteq> None then openai obj
      else None)"

definition templateEmbeddingsFor :: "string \<Rightarrow> Template \<Rightarrow> real list option" where
  "templateEmbeddingsFor prov template =
     (case grammar template of
        None \<Rightarrow> None
      | Some g \<Rightarrow>
          if prov = ''gemini'' \<and> grammarGemini g \<noteq> None then grammarGemini g
          else if prov = ''openai'' \<and> grammarOpenai g \<noteq> None then grammarOpenai g
          else None)"

text \<open>
  \<^verbatim>\<open>fetchRelevantNamespaces\<close>. The corpus is the list of its entries in the order of
  \<^verbatim>\<open>Object.entries\<close>. The first function is the \<^verbatim>\<open>for\<close> loop that fills
  \<^verbatim>\<open>namespaceSimilarities\<close>, the second is \<^verbatim>\<open>topNamespaces\<close>, the third the returned array.
  The limit \<^verbatim>\<open>topN\<close> is a count. The calls of \<^verbatim>\<open>log\<close> are left out.
\<close>

fun namespaceSimilarities ::
  "numerics \<Rightarrow> (string \<times> ModelEmbeddings) list \<Rightarrow> real list \<Rightarrow> string
     \<Rightarrow> error + (jsnum \<times> string \<times> string) list" where
  "namespaceSimilarities M [] promptEmbedding prov = Inr []"
| "namespaceSimilarities M ((file, obj) # entries) promptEmbedding prov =
     (case modelEmbeddingsFor prov obj of
        None \<Rightarrow> namespaceSimilarities M entries promptEmbedding prov
      | Some embeddings \<Rightarrow>
          (case cosineSimilarity M promptEmbedding embeddings of
             Inl e \<Rightarrow> Inl e
           | Inr similarity \<Rightarrow>
               (case namespaceSimilarities M entries promptEmbedding prov of
                  Inl e \<Rightarrow> Inl e
                | Inr sims \<Rightarrow> Inr ((similarity, file, fileContent obj) # sims))))"

definition topNamespaces ::
  "numerics \<Rightarrow> engine \<Rightarrow> (string \<times> ModelEmbeddings) list \<Rightarrow> real list \<Rightarrow> string \<Rightarrow> nat
     \<Rightarrow> error + (jsnum \<times> string \<times> string) list" where
  "topNamespaces M E modelNamespaces promptEmbedding prov topN =
     (case namespaceSimilarities M modelNamespaces promptEmbedding prov of
        Inl e \<Rightarrow> Inl e
      | Inr sims \<Rightarrow> Inr (slice (sortBy E bySimilarity sims) 0 (Some (int topN))))"

definition fetchRelevantNamespaces ::
  "numerics \<Rightarrow> engine \<Rightarrow> (string \<times> ModelEmbeddings) list \<Rightarrow> real list \<Rightarrow> string \<Rightarrow> nat \<Rightarrow> error + string list" where
  "fetchRelevantNamespaces M E modelNamespaces promptEmbedding prov topN =
     (case topNamespaces M E modelNamespaces promptEmbedding prov topN of
        Inl e \<Rightarrow> Inl e
      | Inr selected \<Rightarrow> Inr (map (\<lambda>(similarity, file, fileContent). file @ [CHR 0x0A]) selected))"

text \<open>
  \<^verbatim>\<open>content.replace(/import .*\n/g, '')\<close>: the dot matches every character but a line
  terminator, so a match is \<^verbatim>\<open>import \<close>, the characters up to the next line terminator, and
  that terminator when it is a line feed. The search resumes after a match, and one
  character further where there is none.
\<close>

definition isLineTerminator :: "char \<Rightarrow> bool" where
  "isLineTerminator c = (c = CHR 0x0A \<or> c = CHR 0x0D)"

function removeImports :: "string \<Rightarrow> string" where
  "removeImports [] = []"
| "removeImports (c # cs) =
     (if prefix ''import '' (c # cs) then
        (case dropWhile (\<lambda>x. \<not> isLineTerminator x) (drop 7 (c # cs)) of
           [] \<Rightarrow> c # removeImports cs
         | t # after \<Rightarrow> if t = CHR 0x0A then removeImports after else c # removeImports cs)
      else c # removeImports cs)"
  by pat_completeness auto
termination
proof (relation "measure length")
  fix c :: char and cs after :: string and t :: char
  assume "dropWhile (\<lambda>x. \<not> isLineTerminator x) (drop 7 (c # cs)) = t # after"
  then have "Suc (length after) = length (dropWhile (\<lambda>x. \<not> isLineTerminator x) (drop 7 (c # cs)))"
    by simp
  also have "\<dots> \<le> length (drop 7 (c # cs))"
    by (rule length_dropWhile_le)
  also have "\<dots> \<le> length (c # cs)"
    by simp
  finally show "(after, c # cs) \<in> measure length"
    by simp
qed auto

text \<open>
  \<^verbatim>\<open>fetchRelevantTemplates\<close>: the same loop over the templates; an entry carries the name,
  the grammar content and the grammar content without its import statements.
\<close>

fun templateSimilarities ::
  "numerics \<Rightarrow> (string \<times> Template) list \<Rightarrow> real list \<Rightarrow> string
     \<Rightarrow> error + (jsnum \<times> string \<times> string \<times> string) list" where
  "templateSimilarities M [] promptEmbedding prov = Inr []"
| "templateSimilarities M ((templateName, template) # entries) promptEmbedding prov =
     (case templateEmbeddingsFor prov template of
        None \<Rightarrow> templateSimilarities M entries promptEmbedding prov
      | Some embeddings \<Rightarrow>
          (case cosineSimilarity M promptEmbedding embeddings of
             Inl e \<Rightarrow> Inl e
           | Inr similarity \<Rightarrow>
               (let text = (case grammar template of None \<Rightarrow> [] | Some g \<Rightarrow> grammarContent g);
                    cleanedModelContent = removeImports text
                in case templateSimilarities M entries promptEmbedding prov of
                     Inl e \<Rightarrow> Inl e
                   | Inr sims \<Rightarrow>
                       Inr ((similarity, templateName, text, cleanedModelContent) # sims))))"

definition topTemplates ::
  "numerics \<Rightarrow> engine \<Rightarrow> (string \<times> Template) list \<Rightarrow> real list \<Rightarrow> string \<Rightarrow> nat
     \<Rightarrow> error + (jsnum \<times> string \<times> string \<times> string) list" where
  "topTemplates M E templateEmbeddings promptEmbedding prov topN =
     (case templateSimilarities M templateEmbeddings promptEmbedding prov of
        Inl e \<Rightarrow> Inl e
      | Inr sims \<Rightarrow> Inr (slice (sortBy E bySimilarity sims) 0 (Some (int topN))))"

definition renderTemplate :: "jsnum \<times> string \<times> string \<times> string \<Rightarrow> string" where
  "renderTemplate entry =
     (case entry of (similarity, templateName, grammarText, modelContent) \<Rightarrow>
        ''Template: '' @ templateName @ [CHR 0x0A] @ ''Template grammar: '' @ grammarText
          @ [CHR 0x0A] @ ''Corresponding model: '' @ modelContent @ [CHR 0x0A])"

definition fetchRelevantTemplates ::
  "numerics \<Rightarrow> engine \<Rightarrow> (string \<times> Template) list \<Rightarrow> real list \<Rightarrow> string \<Rightarrow> nat \<Rightarrow> error + string list" where
  "fetchRelevantTemplates M E templateEmbeddings promptEmbedding prov topN =
     (case topTemplates M E templateEmbeddings promptEmbedding prov topN of
        Inl e \<Rightarrow> Inl e
      | Inr selected \<Rightarrow> Inr (map renderTemplate selected))"

text \<open>
  \<^verbatim>\<open>fetchRelevantGrammar\<close>: an entry carries the name, the sample content (which may be
  \<^verbatim>\<open>undefined\<close>) and the grammar content.
\<close>

fun grammarSimilarities ::
  "numerics \<Rightarrow> (string \<times> Template) list \<Rightarrow> real list \<Rightarrow> string
     \<Rightarrow> error + (jsnum \<times> string \<times> string option \<times> string) list" where
  "grammarSimilarities M [] promptEmbedding prov = Inr []"
| "grammarSimilarities M ((templateName, template) # entries) promptEmbedding prov =
     (case templateEmbeddingsFor prov template of
        None \<Rightarrow> grammarSimilarities M entries promptEmbedding prov
      | Some embeddings \<Rightarrow>
          (case cosineSimilarity M promptEmbedding embeddings of
             Inl e \<Rightarrow> Inl e
           | Inr similarity \<Rightarrow>
               (let text = (case grammar template of None \<Rightarrow> [] | Some g \<Rightarrow> grammarContent g)
                in case grammarSimilarities M entries promptEmbedding prov of
                     Inl e \<Rightarrow> Inl e
                   | Inr sims \<Rightarrow>
                       Inr ((similarity, templateName, sampleContent template, text) # sims))))"

definition topGrammar ::
  "numerics \<Rightarrow> engine \<Rightarrow> (string \<times> Template) list \<Rightarrow> real list \<Rightarrow> string \<Rightarrow> nat
     \<Rightarrow> error + (jsnum \<times> string \<times> string option \<times> string) list" where
  "topGrammar M E templateEmbeddings promptEmbedding prov topN =
     (case grammarSimilarities M templateEmbeddings promptEmbedding prov of
        Inl e \<Rightarrow> Inl e
      | Inr sims \<Rightarrow> Inr (slice (sortBy E bySimilarity sims) 0 (Some (int topN))))"

definition renderGrammar :: "jsnum \<times> string \<times> string option \<times> string \<Rightarrow> string" where
  "renderGrammar entry =
     (case entry of (similarity, file, sample, grammarText) \<Rightarrow>
        ''Template sample: '' @ interpolate sample @ [CHR 0x0A]
          @ '' and corresponding grammar: '' @ grammarText @ [CHR 0x0A])"

definition fetchRelevantGrammar ::
  "numerics \<Rightarrow> engine \<Rightarrow> (string \<times> Template) list \<Rightarrow> real list \<Rightarrow> string \<Rightarrow> nat \<Rightarrow> error + string list" where
  "fetchRelevantGrammar M E templateEmbeddings promptEmbedding prov topN =
     (case topGrammar M E templateEmbeddings promptEmbedding prov topN of
        Inl e \<Rightarrow> Inl e
      | Inr selected \<Rightarrow> Inr (map renderGrammar selected))"

section \<open>Notions of the specification and concrete instances\<close>

text \<open>
  Modelled from the spec: the values of the enums \<^verbatim>\<open>RequestType\<close> and \<^verbatim>\<open>Language\<close>, whose
  declaration is not among the sources. They are the names in lower case, as the literals
  \<^verbatim>\<open>'grammar'\<close> and \<^verbatim>\<open>'model'\<close> of \<^verbatim>\<open>generateEmbeddingPrompt\<close>.
\<close>

definition requestTypes :: RequestTypeEnum where
  "requestTypes =
     \<lparr>Inline = ''inline'', Fix = ''fix'', General = ''general'', Model = ''model'',
      Grammar = ''grammar''\<rparr>"

definition languages :: LanguageEnum where
  "languages = \<lparr>Concerto = ''concerto''\<rparr>"

text \<open>
  Collaborators for evaluating the planner: each renderer returns the text it was given,
  marked with its name, and the gateway answers every request with the vector \<open>[1, 0]\<close>.
\<close>

definition echoCollaborators :: "string collaborators" where
  "echoCollaborators =
     \<lparr>getInlineTemplate = (\<lambda>before after pc. ''inline:'' @ before @ ''|'' @ after),
      getConcertoInlineTemplate = (\<lambda>before after pc. ''concerto:'' @ before @ ''|'' @ after),
      getFixTemplate = (\<lambda>text pc. ''fix:'' @ text),
      getGeneralTemplate = (\<lambda>pc. ''general''),
      getGrammarTemplate = (\<lambda>docs. Inr ''grammar''),
      getConcertoModelTemplate = (\<lambda>docs promptEmbedding prov. Inr (''model:'' @ prov)),
      generateEmbeddingsByProvider = (\<lambda>prov cfg text. Inr [1, 0])\<rparr>"

text \<open>
  A numeric library for evaluating the ranking functions: the dot product and the Euclidean
  norm of mathjs, which rejects vectors of different lengths and empty vectors, with the
  arithmetic of exact numbers. It gives the machine's results wherever the machine rounds
  nothing, as on the vectors of zeros and ones below; a zero has no sign here.
\<close>

fun js_mul :: "jsnum \<Rightarrow> jsnum \<Rightarrow> jsnum" where
  "js_mul NaN y = NaN"
| "js_mul x NaN = NaN"
| "js_mul (Num a) (Num b) = Num (a * b)"
| "js_mul (Num a) PosInf = (if a = 0 then NaN else if 0 < a then PosInf else NegInf)"
| "js_mul (Num a) NegInf = (if a = 0 then NaN else if 0 < a then NegInf else PosInf)"
| "js_mul PosInf (Num b) = (if b = 0 then NaN else if 0 < b then PosInf else NegInf)"
| "js_mul NegInf (Num b) = (if b = 0 then NaN else if 0 < b then NegInf else PosInf)"
| "js_mul PosInf PosInf = PosInf"
| "js_mul PosInf NegInf = NegInf"
| "js_mul NegInf PosInf = NegInf"
| "js_mul NegInf NegInf = PosInf"

fun js_quot :: "jsnum \<Rightarrow> jsnum \<Rightarrow> jsnum" where
  "js_quot NaN y = NaN"
| "js_quot x NaN = NaN"
| "js_quot (Num a) (Num b) =
     (if b = 0 then (if a = 0 then NaN else if 0 < a then PosInf else NegInf)
      else Num (a / b))"
| "js_quot (Num a) y = Num 0"
| "js_quot PosInf (Num b) = (if 0 \<le> b then PosInf else NegInf)"
| "js_quot NegInf (Num b) = (if 0 \<le> b then NegInf else PosInf)"
| "js_quot x y = NaN"

definition exactMath :: numerics where
  "exactMath =
     \<lparr>math_dot = (\<lambda>x y.
        if length x \<noteq> length y then Inl RangeError
        else if length x = 0 then Inl RangeError
        else Inr (Num (sum_list (map2 (*) x y)))),
      math_norm = (\<lambda>x. Inr (Num (sqrt (sum_list (map (\<lambda>v. v * v) x))))),
      multiply = js_mul,
      quotient = js_quot\<rparr>"

text \<open>An engine that leaves an array alone when the comparator is not consistent.\<close>

definition keepsOrder :: engine where
  "keepsOrder cmp n = [0..<n]"

text \<open>
  A text that begins with a declaration, in the words of the pattern: one of the keywords,
  then white space, then the identifier, a run of word characters that the rest of the text
  does not continue.
\<close>

definition declarationStart :: "string \<Rightarrow> string \<Rightarrow> string \<Rightarrow> bool" where
  "declarationStart text name rest \<longleftrightarrow>
     (\<exists>kw ws. kw \<in> set declKeywords \<and> text = kw @ ws @ name @ rest
        \<and> ws \<noteq> [] \<and> (\<forall>c \<in> set ws. isSpaceChar c)
        \<and> name \<noteq> [] \<and> (\<forall>c \<in> set name. isWordChar c)
        \<and> (rest = [] \<or> \<not> isWordChar (hd rest)))"

text \<open>
  The file name with its extension stripped, in the words of the specification: the name up
  to its last dot.
\<close>

definition stripExtension :: "string \<Rightarrow> string" where
  "stripExtension name =
     (if CHR ''.'' \<in> set name then rev (tl (dropWhile (\<lambda>c. c \<noteq> CHR ''.'') (rev name)))
      else name)"

text \<open>
  A ranking of the scored entries with limit \<open>N\<close>, in the words of the specification: at most
  \<open>N\<close> entries, by non-increasing similarity, each at least as similar as every scored entry
  that is left out.
\<close>

definition isTopRanking :: "nat \<Rightarrow> (jsnum \<times> 'a) list \<Rightarrow> (jsnum \<times> 'a) list \<Rightarrow> bool" where
  "isTopRanking N scored selected \<longleftrightarrow>
     length selected \<le> N \<and>
     sorted_wrt (\<lambda>a b. js_ge (fst a) (fst b)) selected \<and>
     mset selected \<subseteq># mset scored \<and>
     (\<forall>a \<in> set selected. \<forall>b \<in># mset scored - mset selected. js_ge (fst a) (fst b))"

text \<open>A text made of lines, each ended by a line feed.\<close>

definition unlines :: "string list \<Rightarrow> string" where
  "unlines ls = concat (map (\<lambda>l. l @ [CHR 0x0A]) ls)"

text \<open>A corpus of models and a corpus of templates for evaluating the ranking functions.\<close>

definition sampleModels :: "(string \<times> ModelEmbeddings) list" where
  "sampleModels =
     [(''a.cto'', \<lparr>fileContent = ''asset A {}'', modelFileName = ''a.cto'',
                  gemini = None, openai = Some [0, 1]\<rparr>),
      (''b.cto'', \<lparr>fileContent = ''asset B {}'', modelFileName = ''b.cto'',
                  gemini = None, openai = Some [1, 0]\<rparr>),
      (''c.cto'', \<lparr>fileContent = ''asset C {}'', modelFileName = ''c.cto'',
                  gemini = Some [1, 0], openai = None\<rparr>)]"

definition sampleTemplates :: "(string \<times> Template) list" where
  "sampleTemplates =
     [(''latedelivery'',
       \<lparr>grammar = Some \<lparr>grammarContent = ''import org.time'' @ [CHR 0x0A] @ ''Late delivery'' @ [CHR 0x0A],
                        grammarGemini = None, grammarOpenai = Some [0, 1]\<rparr>,
        sampleContent = Some ''Late delivery of goods''\<rparr>),
      (''helloworld'',
       \<lparr>grammar = Some \<lparr>grammarContent = ''Hello'' @ [CHR 0x0A],
                        grammarGemini = None, grammarOpenai = Some [1, 0]\<rparr>,
        sampleContent = None\<rparr>),
      (''draft'', \<lparr>grammar = None, sampleContent = None\<rparr>)]"

section \<open>Properties of the agent planner and the context extractor\<close>


lemma slice_take: "slice s 0 (Some (int n)) = take n s"
  by (simp add: slice_def slice_index_def Let_def min_def)

lemma slice_drop: "slice s (int n) None = drop n s"
  by (simp add: slice_def slice_index_def Let_def min_def)

text \<open>
  C5 (amended). An inline request splits the main document into the text before and the text
  after the cursor: at the cursor position when it is positive, so that the content
  \<open>abcdef\<close> with cursor position 3 reaches the renderer as \<open>abc\<close> and \<open>def\<close>; at the end of the
  content when the cursor position is absent or 0, so that the renderer gets the whole
  content and the empty string; and that many characters before the end when it is
  negative. The renderer is the Concerto one when the language is Concerto and the generic
  one otherwise.
\<close>

theorem inline_split:
  "inlineRequestPrompt L C \<lparr>main = \<lparr>content = ''abcdef'', cursorPosition = Some 3\<rparr>, contextDocuments = cds\<rparr> pc
     = (if language pc = Concerto L then getConcertoInlineTemplate C ''abc'' ''def'' pc
        else getInlineTemplate C ''abc'' ''def'' pc)
   \<and> inlineRequestPrompt L C \<lparr>main = \<lparr>content = text, cursorPosition = None\<rparr>, contextDocuments = cds\<rparr> pc
     = (if language pc = Concerto L then getConcertoInlineTemplate C text [] pc
        else getInlineTemplate C text [] pc)
   \<and> inlineRequestPrompt L C \<lparr>main = \<lparr>content = text, cursorPosition = Some 0\<rparr>, contextDocuments = cds\<rparr> pc
     = (if language pc = Concerto L then getConcertoInlineTemplate C text [] pc
        else getInlineTemplate C text [] pc)
   \<and> (0 < c \<longrightarrow>
        inlineRequestPrompt L C \<lparr>main = \<lparr>content = text, cursorPosition = Some c\<rparr>, contextDocuments = cds\<rparr> pc
     = (if language pc = Concerto L
        then getConcertoInlineTemplate C (take (nat c) text) (drop (nat c) text) pc
        else getInlineTemplate C (take (nat c) text) (drop (nat c) text) pc))
   \<and> (c < 0 \<longrightarrow>
        inlineRequestPrompt L C \<lparr>main = \<lparr>content = text, cursorPosition = Some c\<rparr>, contextDocuments = cds\<rparr> pc
     = (if language pc = Concerto L
        then getConcertoInlineTemplate C (take (nat (int (length text) + c)) text)
               (drop (nat (int (length text) + c)) text) pc
        else getInlineTemplate C (take (nat (int (length text) + c)) text)
               (drop (nat (int (length text) + c)) text) pc))"
proof -
  have pos: "slice text 0 (Some c) = take (nat c) text \<and> slice text c None = drop (nat c) text"
    if "0 < c"
    using that by (auto simp: slice_def slice_index_def Let_def min_def)
  have neg: "slice text 0 (Some c) = take (nat (int (length text) + c)) text
      \<and> slice text c None = drop (nat (int (length text) + c)) text"
    if "c < 0"
    using that by (auto simp: slice_def slice_index_def Let_def max_def)
  show ?thesis
    using pos neg
    by (simp add: inlineRequestPrompt_def slice_take slice_drop Let_def)
       (simp add: slice_def slice_index_def)
qed

theorem inline_split_witness:
  "(0::int) < 5 \<and> (-2::int) < 0 \<and>
   inlineRequestPrompt languages echoCollaborators
     \<lparr>main = \<lparr>content = ''asset Car'', cursorPosition = Some 5\<rparr>, contextDocuments = None\<rparr>
     \<lparr>requestType = ''inline'', language = ''concerto'', instruction = None\<rparr>
   = ''concerto:asset| Car'' \<and>
   inlineRequestPrompt languages echoCollaborators
     \<lparr>main = \<lparr>content = ''asset Car'', cursorPosition = Some (-2)\<rparr>, contextDocuments = None\<rparr>
     \<lparr>requestType = ''inline'', language = ''concerto'', instruction = None\<rparr>
   = ''concerto:asset C|ar''"
  using inline_split [of languages echoCollaborators None
      "\<lparr>requestType = ''inline'', language = ''concerto'', instruction = None\<rparr>" "''asset Car''" 5]
    inline_split [of languages echoCollaborators None
      "\<lparr>requestType = ''inline'', language = ''concerto'', instruction = None\<rparr>" "''asset Car''" "-2"]
  by (simp add: languages_def echoCollaborators_def)

theorem inline_split_zero_counterexample:
  "inlineRequestPrompt languages echoCollaborators
     \<lparr>main = \<lparr>content = ''abcdef'', cursorPosition = Some 0\<rparr>, contextDocuments = None\<rparr>
     \<lparr>requestType = ''inline'', language = ''markdown'', instruction = None\<rparr>
   = getInlineTemplate echoCollaborators ''abcdef'' []
       \<lparr>requestType = ''inline'', language = ''markdown'', instruction = None\<rparr>
   \<and> inlineRequestPrompt languages echoCollaborators
     \<lparr>main = \<lparr>content = ''abcdef'', cursorPosition = Some 0\<rparr>, contextDocuments = None\<rparr>
     \<lparr>requestType = ''inline'', language = ''markdown'', instruction = None\<rparr>
   \<noteq> getInlineTemplate echoCollaborators [] ''abcdef''
       \<lparr>requestType = ''inline'', language = ''markdown'', instruction = None\<rparr>"
  by (simp add: inlineRequestPrompt_def languages_def echoCollaborators_def slice_def
      slice_index_def)

text \<open>
  C10. An inline request with cursor position 0 is handled as one without a cursor position:
  the renderer gets the whole content before the cursor and the empty string after it.
\<close>

theorem inline_zero:
  "inlineRequestPrompt L C \<lparr>main = \<lparr>content = text, cursorPosition = Some 0\<rparr>, contextDocuments = cds\<rparr> pc
     = inlineRequestPrompt L C \<lparr>main = \<lparr>content = text, cursorPosition = None\<rparr>, contextDocuments = cds\<rparr> pc
   \<and> inlineRequestPrompt L C \<lparr>main = \<lparr>content = text, cursorPosition = Some 0\<rparr>, contextDocuments = cds\<rparr> pc
     = (if language pc = Concerto L then getConcertoInlineTemplate C text [] pc
        else getInlineTemplate C text [] pc)"
  by (simp add: inlineRequestPrompt_def slice_take slice_drop Let_def)

theorem inline_zero_witness:
  "inlineRequestPrompt languages echoCollaborators
     \<lparr>main = \<lparr>content = ''asset Car'', cursorPosition = Some 0\<rparr>, contextDocuments = None\<rparr>
     \<lparr>requestType = ''inline'', language = ''markdown'', instruction = None\<rparr>
   = ''inline:asset Car|''"
  using inline_zero [of languages echoCollaborators "''asset Car''" None
      "\<lparr>requestType = ''inline'', language = ''markdown'', instruction = None\<rparr>", THEN conjunct2]
  by (simp add: languages_def echoCollaborators_def)

text \<open>
  C8. A request whose type is none of the five values of the enumeration fails with the
  error \<open>Unsupported request type\<close>, and the planner has called no renderer and no gateway.
\<close>

theorem unsupported:
  "requestType (promptConfig params) \<notin> {Inline RT, Fix RT, General RT, Model RT, Grammar RT}
   \<Longrightarrow> agentPlanner RT L C params = (Inl UnsupportedRequestType, [])"
  by (simp add: agentPlanner_def Let_def)

theorem unsupported_witness:
  "''frobnicate'' \<notin> {''inline'', ''fix'', ''general'', ''model'', ''grammar''} \<and>
   agentPlanner requestTypes languages echoCollaborators
     \<lparr>documents = \<lparr>main = \<lparr>content = ''asset Car'', cursorPosition = None\<rparr>, contextDocuments = None\<rparr>,
      promptConfig = \<lparr>requestType = ''frobnicate'', language = ''concerto'', instruction = None\<rparr>,
      config = \<lparr>provider = ''openai'', llmModel = [], apiUrl = [], accessToken = []\<rparr>\<rparr>
   = (Inl (Error ''Unsupported request type''), [])"
  using unsupported [of
     "\<lparr>documents = \<lparr>main = \<lparr>content = ''asset Car'', cursorPosition = None\<rparr>, contextDocuments = None\<rparr>,
      promptConfig = \<lparr>requestType = ''frobnicate'', language = ''concerto'', instruction = None\<rparr>,
      config = \<lparr>provider = ''openai'', llmModel = [], apiUrl = [], accessToken = []\<rparr>\<rparr>"
     requestTypes languages echoCollaborators]
  by (simp add: requestTypes_def UnsupportedRequestType_def)

lemma generateEmbeddingPrompt_model_missing:
  "findContent (contextDocuments docs) ''grammar.tem.md'' = None
     \<or> findContent (contextDocuments docs) ''package.json'' = None
   \<Longrightarrow> generateEmbeddingPrompt docs (Some ''model'') = Inl MissingDocument"
  by (auto simp: generateEmbeddingPrompt_def falsy_def Let_def)

text \<open>
  C1. A model request without \<open>grammar.tem.md\<close> and \<open>package.json\<close> among its context documents
  should fail with the missing-document error before the embedding call.
  \<^verbatim>\<open>generateEmbeddingPrompt\<close> does raise that error when it is told that the request is a
  model request, but \<^verbatim>\<open>modelRequestPrompt\<close> calls it without the request type: on a request
  with no context document at all the planner does not fail with that error before any call,
  and it sends the empty text to the embedding gateway.
\<close>

theorem model_request_embeds_without_documents:
  "agentPlanner requestTypes L C
     \<lparr>documents = \<lparr>main = m, contextDocuments = Some []\<rparr>,
      promptConfig = \<lparr>requestType = ''model'', language = l, instruction = i\<rparr>,
      config = cfg\<rparr> \<noteq> (Inl MissingDocument, [])
   \<and> CallGenerateEmbeddings [] \<in> set (snd (agentPlanner requestTypes L C
     \<lparr>documents = \<lparr>main = m, contextDocuments = Some []\<rparr>,
      promptConfig = \<lparr>requestType = ''model'', language = l, instruction = i\<rparr>,
      config = cfg\<rparr>))
   \<and> generateEmbeddingPrompt \<lparr>main = m, contextDocuments = Some []\<rparr> (Some ''model'') = Inl MissingDocument"
  by (auto simp: agentPlanner_def requestTypes_def modelRequestPrompt_def generateEmbeddingPrompt_def
      findContent_def falsy_def Let_def split: sum.splits)

lemma find_first:
  "\<forall>d \<in> set pre. \<not> P d \<Longrightarrow> P doc \<Longrightarrow> List.find P (pre @ doc # post) = Some doc"
  by (induction pre) auto

lemma find_none: "\<forall>d \<in> set ds. \<not> P d \<Longrightarrow> List.find P ds = None"
  by (induction ds) auto

text \<open>
  C4 (amended). For a grammar request the embedding query is exactly the content of the first
  context document named \<open>sample.md\<close>, when that document is there and has a content. When
  there are no context documents, or none of them is named \<open>sample.md\<close>, or the first one of
  that name has no content, the query is the text \<open>undefined\<close>, and no error is raised.
\<close>

theorem grammar_query:
  "((\<forall>d \<in> set pre. fileName d \<noteq> ''sample.md'') \<and> fileName doc = ''sample.md''
      \<and> docContent doc = Some text
    \<longrightarrow> generateEmbeddingPrompt \<lparr>main = m, contextDocuments = Some (pre @ doc # post)\<rparr>
          (Some ''grammar'') = Inr text)
   \<and> ((\<forall>d \<in> set pre. fileName d \<noteq> ''sample.md'') \<and> fileName doc = ''sample.md''
      \<and> docContent doc = None
    \<longrightarrow> generateEmbeddingPrompt \<lparr>main = m, contextDocuments = Some (pre @ doc # post)\<rparr>
          (Some ''grammar'') = Inr ''undefined'')
   \<and> ((\<forall>d \<in> set ds. fileName d \<noteq> ''sample.md'')
    \<longrightarrow> generateEmbeddingPrompt \<lparr>main = m, contextDocuments = Some ds\<rparr>
          (Some ''grammar'') = Inr ''undefined'')
   \<and> generateEmbeddingPrompt \<lparr>main = m, contextDocuments = None\<rparr> (Some ''grammar'')
       = Inr ''undefined''"
  by (simp add: generateEmbeddingPrompt_def findContent_def find_first find_none interpolate_def)

theorem grammar_query_witness:
  "fileName \<lparr>fileName = ''package.json'', docContent = Some ''{}''\<rparr> \<noteq> ''sample.md''
   \<and> fileName \<lparr>fileName = ''sample.md'', docContent = Some ''Dear Sir''\<rparr> = ''sample.md''
   \<and> docContent \<lparr>fileName = ''sample.md'', docContent = Some ''Dear Sir''\<rparr> = Some ''Dear Sir''
   \<and> generateEmbeddingPrompt
       \<lparr>main = \<lparr>content = [], cursorPosition = None\<rparr>,
        contextDocuments = Some [\<lparr>fileName = ''package.json'', docContent = Some ''{}''\<rparr>,
                                 \<lparr>fileName = ''sample.md'', docContent = Some ''Dear Sir''\<rparr>]\<rparr>
       (Some ''grammar'') = Inr ''Dear Sir''
   \<and> generateEmbeddingPrompt
       \<lparr>main = \<lparr>content = [], cursorPosition = None\<rparr>,
        contextDocuments = Some [\<lparr>fileName = ''package.json'', docContent = Some ''{}''\<rparr>,
                                 \<lparr>fileName = ''sample.md'', docContent = None\<rparr>]\<rparr>
       (Some ''grammar'') = Inr ''undefined''
   \<and> generateEmbeddingPrompt
       \<lparr>main = \<lparr>content = [], cursorPosition = None\<rparr>,
        contextDocuments = Some [\<lparr>fileName = ''package.json'', docContent = Some ''{}''\<rparr>]\<rparr>
       (Some ''grammar'') = Inr ''undefined''"
  using grammar_query [of "[\<lparr>fileName = ''package.json'', docContent = Some ''{}''\<rparr>]"
      "\<lparr>fileName = ''sample.md'', docContent = Some ''Dear Sir''\<rparr>" "''Dear Sir''"
      "\<lparr>content = [], cursorPosition = None\<rparr>" "[]"
      "[\<lparr>fileName = ''package.json'', docContent = Some ''{}''\<rparr>]"]
    grammar_query [of "[\<lparr>fileName = ''package.json'', docContent = Some ''{}''\<rparr>]"
      "\<lparr>fileName = ''sample.md'', docContent = None\<rparr>" "''Dear Sir''"
      "\<lparr>content = [], cursorPosition = None\<rparr>" "[]"
      "[\<lparr>fileName = ''package.json'', docContent = Some ''{}''\<rparr>]"]
  by simp

theorem grammar_query_absent_counterexample:
  "generateEmbeddingPrompt \<lparr>main = \<lparr>content = [], cursorPosition = None\<rparr>, contextDocuments = Some []\<rparr>
     (Some ''grammar'') = Inr ''undefined''
   \<and> generateEmbeddingPrompt \<lparr>main = \<lparr>content = [], cursorPosition = None\<rparr>, contextDocuments = Some []\<rparr>
     (Some ''grammar'') \<noteq> Inr []"
  by (simp add: generateEmbeddingPrompt_def findContent_def interpolate_def)


section \<open>Properties of the namespace mapper\<close>

lemma word_not_space: "isWordChar c \<Longrightarrow> \<not> isSpaceChar c"
  by (auto simp: isWordChar_def isSpaceChar_def Let_def)

lemma matchDeclared_name:
  assumes "name \<noteq> []" and "\<forall>c \<in> set name. isWordChar c"
  shows "matchDeclared (CHR '' '' # name @ CHR '' '' # rest) = Some (name, CHR '' '' # rest)"
proof -
  obtain c cs where name: "name = c # cs"
    using assms(1) by (cases name) auto
  have sp: "isSpaceChar CHR '' ''" and nw: "\<not> isWordChar CHR '' ''"
    by (simp_all add: isSpaceChar_def isWordChar_def)
  have nsp: "\<not> isSpaceChar c"
    using assms(2) name word_not_space by simp
  have tw: "takeWhile isWordChar (name @ CHR '' '' # rest) = name"
    using assms(2) nw by (simp add: takeWhile_append2)
  have dw: "dropWhile isWordChar (name @ CHR '' '' # rest) = CHR '' '' # rest"
    using assms(2) nw by (simp add: dropWhile_append2)
  have "takeWhile isSpaceChar (CHR '' '' # name @ CHR '' '' # rest) = [CHR '' '']"
    using sp nsp name by simp
  moreover have "dropWhile isSpaceChar (CHR '' '' # name @ CHR '' '' # rest) = name @ CHR '' '' # rest"
    using sp nsp name by simp
  ultimately show ?thesis
    using tw dw assms(1) by (simp add: matchDeclared_def Let_def)
qed

lemma matchAlternatives_declaration:
  assumes "kw \<in> set declKeywords" and "name \<noteq> []" and "\<forall>c \<in> set name. isWordChar c"
  shows "matchAlternatives declKeywords (kw @ CHR '' '' # name @ CHR '' '' # rest)
           = Some (name, CHR '' '' # rest)"
proof -
  note m = matchDeclared_name [OF assms(2,3)]
  from assms(1) consider "kw = ''asset''" | "kw = ''participant''" | "kw = ''enum''"
    | "kw = ''abstract asset''"
    by (auto simp: declKeywords_def)
  then show ?thesis
  proof cases
    case 1
    then show ?thesis using m by (simp add: declKeywords_def)
  next
    case 2
    then show ?thesis using m by (simp add: declKeywords_def)
  next
    case 3
    then show ?thesis using m by (simp add: declKeywords_def)
  next
    case 4
    then show ?thesis using m by (simp add: declKeywords_def)
  qed
qed

lemma execLoop_declaration:
  assumes "kw \<in> set declKeywords" and "name \<noteq> []" and "\<forall>c \<in> set name. isWordChar c"
  shows "execLoop False (kw @ CHR '' '' # name @ '' {}'' @ rest) = name # execLoop False rest"
proof -
  obtain k ks where kw: "kw = k # ks"
    using assms(1) by (cases kw) (auto simp: declKeywords_def)
  have "matchAlternatives declKeywords (k # ks @ CHR '' '' # name @ CHR '' '' # ''{}'' @ rest)
          = Some (name, CHR '' '' # ''{}'' @ rest)"
    using matchAlternatives_declaration [OF assms, of "''{}'' @ rest"] kw by simp
  then have "execLoop False (kw @ CHR '' '' # name @ '' {}'' @ rest)
          = name # execLoop True (CHR '' '' # ''{}'' @ rest)"
    using kw by simp
  also have "execLoop True (CHR '' '' # ''{}'' @ rest) = execLoop False rest"
    by (simp add: isWordChar_def declKeywords_def)
  finally show ?thesis .
qed


lemma execLoop_skip_space: "execLoop False (CHR '' '' # rest) = execLoop False rest"
  by (simp add: isWordChar_def declKeywords_def)

lemma execLoop_declarations:
  assumes "\<forall>d \<in> set decls. fst d \<in> set declKeywords \<and> snd d \<noteq> [] \<and> (\<forall>c \<in> set (snd d). isWordChar c)"
  shows "execLoop False (join '' '' (map (\<lambda>d. fst d @ '' '' @ snd d @ '' {}'') decls)) = map snd decls"
  using assms
proof (induction decls rule: induct_list012)
  case 1
  then show ?case by simp
next
  case (2 d)
  then show ?case
    using execLoop_declaration [of "fst d" "snd d" "[]"] by simp
next
  case (3 d d' ds)
  have "execLoop False (join '' '' (map (\<lambda>d. fst d @ '' '' @ snd d @ '' {}'') (d # d' # ds)))
      = execLoop False (fst d @ CHR '' '' # snd d @ '' {}''
          @ (CHR '' '' # join '' '' (map (\<lambda>d. fst d @ '' '' @ snd d @ '' {}'') (d' # ds))))"
    by simp
  also have "\<dots> = snd d # execLoop False
      (CHR '' '' # join '' '' (map (\<lambda>d. fst d @ '' '' @ snd d @ '' {}'') (d' # ds)))"
    using "3.prems" by (intro execLoop_declaration) simp_all
  also have "\<dots> = snd d # map snd (d' # ds)"
    using "3.IH"(2) "3.prems" by (simp only: execLoop_skip_space) simp
  finally show ?case by simp
qed


lemma matchDeclared_iff:
  "matchDeclared r = Some (name, rest) \<longleftrightarrow>
     (\<exists>ws. r = ws @ name @ rest \<and> ws \<noteq> [] \<and> (\<forall>c \<in> set ws. isSpaceChar c)
        \<and> name \<noteq> [] \<and> (\<forall>c \<in> set name. isWordChar c)
        \<and> (rest = [] \<or> \<not> isWordChar (hd rest)))"
proof
  assume m: "matchDeclared r = Some (name, rest)"
  define ws where "ws = takeWhile isSpaceChar r"
  define r1 where "r1 = dropWhile isSpaceChar r"
  from m have ws: "ws \<noteq> []" and name: "name = takeWhile isWordChar r1" "name \<noteq> []"
    and rest: "rest = dropWhile isWordChar r1"
    by (auto simp: matchDeclared_def Let_def ws_def r1_def split: if_splits)
  have "r = ws @ r1"
    by (simp add: ws_def r1_def)
  moreover have "r1 = name @ rest"
    by (simp add: name rest)
  moreover have "\<forall>c \<in> set ws. isSpaceChar c"
    unfolding ws_def by (meson set_takeWhileD)
  moreover have "\<forall>c \<in> set name. isWordChar c"
    unfolding name by (meson set_takeWhileD)
  moreover have "rest = [] \<or> \<not> isWordChar (hd rest)"
    unfolding rest using hd_dropWhile by blast
  ultimately show "\<exists>ws. r = ws @ name @ rest \<and> ws \<noteq> [] \<and> (\<forall>c \<in> set ws. isSpaceChar c)
        \<and> name \<noteq> [] \<and> (\<forall>c \<in> set name. isWordChar c)
        \<and> (rest = [] \<or> \<not> isWordChar (hd rest))"
    using ws name(2) by auto
next
  assume "\<exists>ws. r = ws @ name @ rest \<and> ws \<noteq> [] \<and> (\<forall>c \<in> set ws. isSpaceChar c)
        \<and> name \<noteq> [] \<and> (\<forall>c \<in> set name. isWordChar c)
        \<and> (rest = [] \<or> \<not> isWordChar (hd rest))"
  then obtain ws where r: "r = ws @ name @ rest" and ws: "ws \<noteq> []" "\<forall>c \<in> set ws. isSpaceChar c"
    and name: "name \<noteq> []" "\<forall>c \<in> set name. isWordChar c"
    and rest: "rest = [] \<or> \<not> isWordChar (hd rest)"
    by blast
  obtain n ns where n: "name = n # ns"
    using name(1) by (cases name) auto
  have "\<not> isSpaceChar n"
    using name(2) n word_not_space by simp
  then have tw: "takeWhile isSpaceChar r = ws" and dw: "dropWhile isSpaceChar r = name @ rest"
    using ws(2) by (simp_all add: r n takeWhile_append2 dropWhile_append2)
  have "takeWhile isWordChar (name @ rest) = name \<and> dropWhile isWordChar (name @ rest) = rest"
    using name(2) rest by (cases rest) (simp_all add: takeWhile_append2 dropWhile_append2)
  then show "matchDeclared r = Some (name, rest)"
    using tw dw ws(1) name(1) by (simp add: matchDeclared_def Let_def)
qed


lemma keyword_prefix_unique:
  assumes "kw \<in> set declKeywords" and "kw' \<in> set declKeywords"
    and "prefix kw text" and "prefix kw' text"
  shows "kw' = kw"
proof -
  from assms(3) obtain t where t: "text = kw @ t"
    unfolding prefix_def by blast
  from assms(4) obtain t' where t': "text = kw' @ t'"
    unfolding prefix_def by blast
  from t t' have "kw @ t = kw' @ t'"
    by simp
  with assms(1,2) show ?thesis
    by (auto simp: declKeywords_def)
qed


lemma matchAlternatives_found:
  "matchAlternatives kws s = Some m \<Longrightarrow>
   \<exists>kw \<in> set kws. prefix kw s \<and> matchDeclared (drop (length kw) s) = Some m"
proof (induction kws)
  case Nil
  then show ?case by simp
next
  case (Cons kw kws)
  show ?case
  proof (cases "prefix kw s \<and> matchDeclared (drop (length kw) s) \<noteq> None")
    case True
    with Cons.prems have "matchDeclared (drop (length kw) s) = Some m"
      by (cases "matchDeclared (drop (length kw) s)") simp_all
    with True show ?thesis by simp
  next
    case False
    with Cons.prems have "matchAlternatives kws s = Some m"
      by (cases "matchDeclared (drop (length kw) s)"; cases "prefix kw s") simp_all
    from Cons.IH [OF this] show ?thesis by simp
  qed
qed


lemma matchAlternatives_the_one:
  assumes "kw \<in> set kws" and "prefix kw s"
    and "matchDeclared (drop (length kw) s) = Some m"
    and "\<forall>kw' \<in> set kws. prefix kw' s \<longrightarrow> kw' = kw"
  shows "matchAlternatives kws s = Some m"
  using assms(1,4)
proof (induction kws)
  case Nil
  then show ?case by simp
next
  case (Cons k kws)
  show ?case
  proof (cases "prefix k s")
    case True
    with Cons.prems(2) have "k = kw" by simp
    with assms(2,3) show ?thesis by simp
  next
    case False
    with Cons.prems assms(2) have "kw \<in> set kws" by auto
    moreover from Cons.prems(2) have "\<forall>kw' \<in> set kws. prefix kw' s \<longrightarrow> kw' = kw" by simp
    ultimately have "matchAlternatives kws s = Some m" by (rule Cons.IH)
    with False show ?thesis by simp
  qed
qed


lemma matchAlternatives_iff:
  "matchAlternatives declKeywords text = Some (name, rest) \<longleftrightarrow> declarationStart text name rest"
proof
  assume "matchAlternatives declKeywords text = Some (name, rest)"
  then obtain kw where kw: "kw \<in> set declKeywords" "prefix kw text"
    and m: "matchDeclared (drop (length kw) text) = Some (name, rest)"
    using matchAlternatives_found by blast
  from kw(2) have "text = kw @ drop (length kw) text"
    by (auto simp: prefix_def)
  moreover from m obtain ws where r: "drop (length kw) text = ws @ name @ rest"
    and d: "ws \<noteq> []" "\<forall>c \<in> set ws. isSpaceChar c" "name \<noteq> []" "\<forall>c \<in> set name. isWordChar c"
      "rest = [] \<or> \<not> isWordChar (hd rest)"
    unfolding matchDeclared_iff by blast
  ultimately have "text = kw @ ws @ name @ rest"
    by simp
  with kw(1) d show "declarationStart text name rest"
    unfolding declarationStart_def by blast
next
  assume "declarationStart text name rest"
  then obtain kw ws where kw: "kw \<in> set declKeywords" and decomp: "text = kw @ ws @ name @ rest"
    and d: "ws \<noteq> []" "\<forall>c \<in> set ws. isSpaceChar c" "name \<noteq> []" "\<forall>c \<in> set name. isWordChar c"
      "rest = [] \<or> \<not> isWordChar (hd rest)"
    unfolding declarationStart_def by blast
  have "matchDeclared (drop (length kw) text) = Some (name, rest)"
    unfolding matchDeclared_iff using decomp d by auto
  moreover have p: "prefix kw text"
    using decomp by simp
  moreover have "\<forall>kw' \<in> set declKeywords. prefix kw' text \<longrightarrow> kw' = kw"
    using keyword_prefix_unique [OF kw _ p] by blast
  ultimately show "matchAlternatives declKeywords text = Some (name, rest)"
    using kw by (intro matchAlternatives_the_one)
qed


lemma execLoop_match:
  "\<not> prev \<Longrightarrow> declarationStart (c # cs) name rest \<Longrightarrow>
   execLoop prev (c # cs) = name # execLoop True rest"
  by (simp add: matchAlternatives_iff [symmetric])


lemma execLoop_skip:
  "prev \<or> (\<forall>name rest. \<not> declarationStart (c # cs) name rest) \<Longrightarrow>
   execLoop prev (c # cs) = execLoop (isWordChar c) cs"
  by (cases "matchAlternatives declKeywords (c # cs)")
     (auto simp: matchAlternatives_iff)


lemma declarationStart_suffix:
  assumes "declarationStart t name rest"
  shows "\<exists>front. t = front @ rest"
proof -
  from assms obtain kw ws where "t = kw @ ws @ name @ rest"
    unfolding declarationStart_def by blast
  then have "t = (kw @ ws @ name) @ rest"
    by simp
  then show ?thesis ..
qed

lemma execLoop_sound:
  "n \<in> set (execLoop prev s) \<Longrightarrow>
   \<exists>pre t rest. s = pre @ t \<and> declarationStart t n rest
      \<and> (if pre = [] then \<not> prev else \<not> isWordChar (last pre))"
proof (induction prev s rule: execLoop.induct)
  case (1 prevWord)
  then show ?case by simp
next
  case (2 prevWord c cs)
  have skip: "\<exists>pre t rest. c # cs = pre @ t \<and> declarationStart t n rest
      \<and> (if pre = [] then \<not> prevWord else \<not> isWordChar (last pre))"
    if "\<exists>pre t rest. cs = pre @ t \<and> declarationStart t n rest
      \<and> (if pre = [] then \<not> isWordChar c else \<not> isWordChar (last pre))"
  proof -
    from that obtain pre t r where cs: "cs = pre @ t" and t: "declarationStart t n r"
      and b: "if pre = [] then \<not> isWordChar c else \<not> isWordChar (last pre)"
      by blast
    have "c # cs = (c # pre) @ t"
      using cs by simp
    moreover have "if c # pre = [] then \<not> prevWord else \<not> isWordChar (last (c # pre))"
      using b by (cases pre) simp_all
    ultimately show ?thesis
      using t by blast
  qed
  show ?case
  proof (cases prevWord)
    case True
    with "2.prems" have "n \<in> set (execLoop (isWordChar c) cs)"
      by simp
    from "2.IH"(1) [OF True this] show ?thesis
      by (rule skip)
  next
    case False
    show ?thesis
    proof (cases "matchAlternatives declKeywords (c # cs)")
      case None
      with False "2.prems" have "n \<in> set (execLoop (isWordChar c) cs)"
        by simp
      from "2.IH"(2) [OF False None this] show ?thesis
        by (rule skip)
    next
      case (Some m)
      obtain name rest where m: "m = (name, rest)"
        by (cases m)
      from Some m have d: "declarationStart (c # cs) name rest"
        by (simp add: matchAlternatives_iff)
      from False Some m "2.prems" have "n = name \<or> n \<in> set (execLoop True rest)"
        by simp
      then show ?thesis
      proof
        assume "n = name"
        with d False have "c # cs = [] @ (c # cs) \<and> declarationStart (c # cs) n rest
            \<and> (if ([]::string) = [] then \<not> prevWord else \<not> isWordChar (last []))"
          by simp
        then show ?thesis
          by blast
      next
        assume "n \<in> set (execLoop True rest)"
        from "2.IH"(3) [OF False Some m [symmetric] this]
        obtain pre t r where rest: "rest = pre @ t" and t: "declarationStart t n r"
          and b: "if pre = [] then \<not> True else \<not> isWordChar (last pre)"
          by blast
        from b have pre: "pre \<noteq> []" and last: "\<not> isWordChar (last pre)"
          by (simp_all split: if_splits)
        from declarationStart_suffix [OF d] obtain front where front: "c # cs = front @ rest"
          by blast
        have "c # cs = (front @ pre) @ t"
          using front rest by simp
        moreover have "if front @ pre = [] then \<not> prevWord else \<not> isWordChar (last (front @ pre))"
          using pre last by simp
        ultimately show ?thesis
          using t by blast
      qed
    qed
  qed
qed


lemma execLoop_first:
  assumes "declarationStart t name rest"
    and "\<forall>s \<in> set (suffixes front). s \<noteq> [] \<longrightarrow> (\<forall>n r. \<not> declarationStart (s @ t) n r)"
    and "if front = [] then \<not> prev else \<not> isWordChar (last front)"
  shows "execLoop prev (front @ t) = name # execLoop True rest"
  using assms(2,3)
proof (induction front arbitrary: prev)
  case Nil
  from assms(1) obtain c cs where t: "t = c # cs"
    unfolding declarationStart_def by (cases t) (auto simp: declKeywords_def)
  from Nil.prems(2) have "\<not> prev"
    by simp
  with assms(1) show ?case
    unfolding t append_Nil by (intro execLoop_match)
next
  case (Cons c front)
  have "c # front \<in> set (suffixes (c # front))"
    by simp
  with Cons.prems(1) have none: "\<forall>n r. \<not> declarationStart ((c # front) @ t) n r"
    by blast
  then have "execLoop prev (c # front @ t) = execLoop (isWordChar c) (front @ t)"
    by (intro execLoop_skip) simp
  moreover have "\<forall>s \<in> set (suffixes front). s \<noteq> [] \<longrightarrow> (\<forall>n r. \<not> declarationStart (s @ t) n r)"
    using Cons.prems(1) by simp
  moreover have "if front = [] then \<not> isWordChar c else \<not> isWordChar (last front)"
    using Cons.prems(2) by (cases front) simp_all
  ultimately show ?case
    using Cons.IH by simp
qed

text \<open>
  C7 (amended). For every input text, namespace extraction scans the text from left to right
  and returns, in the order of the text and with repetitions kept, the identifier of each
  declaration it meets: a keyword \<open>asset\<close>, \<open>participant\<close>, \<open>enum\<close> or \<open>abstract asset\<close> that does
  not follow a word character, then white space, then the longest run of word characters
  (the letters \<open>a\<close> to \<open>z\<close> and \<open>A\<close> to \<open>Z\<close>, the digits and the underscore), which is not empty.
  The scan resumes behind the identifier, so a keyword that was taken as an identifier
  introduces none, and every identifier returned stands in the text behind such a keyword.
  The first identifier returned is that of the first declaration of the text.
  The text \<open>asset Vehicle {} participant Driver {}\<close> gives \<open>Vehicle\<close>, \<open>Driver\<close>, and a text of
  declarations \<open>keyword Name {}\<close> separated by spaces gives the list of their names.
\<close>

theorem extraction_order:
  "extractNamespaces text = execLoop False text
   \<and> execLoop prev [] = []
   \<and> (\<not> prev \<and> declarationStart (c # cs) name rest
      \<longrightarrow> execLoop prev (c # cs) = name # execLoop True rest)
   \<and> (prev \<or> (\<forall>name rest. \<not> declarationStart (c # cs) name rest)
      \<longrightarrow> execLoop prev (c # cs) = execLoop (isWordChar c) cs)
   \<and> (\<forall>n \<in> set (extractNamespaces text). \<exists>pre t rest.
          text = pre @ t \<and> declarationStart t n rest
          \<and> (pre = [] \<or> \<not> isWordChar (last pre)))
   \<and> (declarationStart decl name rest
        \<and> (front = [] \<or> \<not> isWordChar (last front))
        \<and> (\<forall>s \<in> set (suffixes front). s \<noteq> [] \<longrightarrow> (\<forall>n r. \<not> declarationStart (s @ decl) n r))
      \<longrightarrow> extractNamespaces (front @ decl) = name # execLoop True rest)
   \<and> extractNamespaces ''asset Vehicle {} participant Driver {}'' = [''Vehicle'', ''Driver'']
   \<and> ((\<forall>d \<in> set decls. fst d \<in> set declKeywords \<and> snd d \<noteq> []
          \<and> (\<forall>c \<in> set (snd d). isWordChar c))
      \<longrightarrow> extractNamespaces (join '' '' (map (\<lambda>d. fst d @ '' '' @ snd d @ '' {}'') decls))
            = map snd decls)"
proof -
  have "extractNamespaces ''asset Vehicle {} participant Driver {}'' = [''Vehicle'', ''Driver'']"
    by (simp add: extractNamespaces_def declKeywords_def matchDeclared_def isWordChar_def
        isSpaceChar_def)
  moreover have "\<forall>n \<in> set (extractNamespaces text). \<exists>pre t rest.
          text = pre @ t \<and> declarationStart t n rest
          \<and> (pre = [] \<or> \<not> isWordChar (last pre))"
  proof
    fix n assume "n \<in> set (extractNamespaces text)"
    then have "n \<in> set (execLoop False text)"
      by (simp add: extractNamespaces_def)
    from execLoop_sound [OF this] obtain pre t rest where
      "text = pre @ t" and "declarationStart t n rest"
      and "if pre = [] then \<not> False else \<not> isWordChar (last pre)"
      by blast
    then show "\<exists>pre t rest. text = pre @ t \<and> declarationStart t n rest
          \<and> (pre = [] \<or> \<not> isWordChar (last pre))"
      by (metis (full_types))
  qed
  moreover have "(\<forall>d \<in> set decls. fst d \<in> set declKeywords \<and> snd d \<noteq> []
          \<and> (\<forall>c \<in> set (snd d). isWordChar c))
      \<longrightarrow> extractNamespaces (join '' '' (map (\<lambda>d. fst d @ '' '' @ snd d @ '' {}'') decls))
            = map snd decls"
    using execLoop_declarations [of decls] by (simp add: extractNamespaces_def)
  moreover have "declarationStart decl name rest
        \<and> (front = [] \<or> \<not> isWordChar (last front))
        \<and> (\<forall>s \<in> set (suffixes front). s \<noteq> [] \<longrightarrow> (\<forall>n r. \<not> declarationStart (s @ decl) n r))
      \<longrightarrow> extractNamespaces (front @ decl) = name # execLoop True rest"
    using execLoop_first [of decl name rest front False] by (auto simp: extractNamespaces_def)
  moreover have "\<not> prev \<and> declarationStart (c # cs) name rest
      \<longrightarrow> execLoop prev (c # cs) = name # execLoop True rest"
    using execLoop_match by blast
  moreover have "prev \<or> (\<forall>name rest. \<not> declarationStart (c # cs) name rest)
      \<longrightarrow> execLoop prev (c # cs) = execLoop (isWordChar c) cs"
    using execLoop_skip by blast
  ultimately show ?thesis
    by (simp add: extractNamespaces_def)
qed


lemma declaration_example:
  "declarationStart (''enum'' @ [CHR 0x0A, CHR 0x09] @ ''Color'' @ ''{ o RED }'') ''Color'' ''{ o RED }''"
  unfolding declarationStart_def
  by (intro exI [of _ "''enum''"] exI [of _ "[CHR 0x0A, CHR 0x09]"])
     (simp add: declKeywords_def isSpaceChar_def isWordChar_def)


theorem extraction_order_witness:
  "extractNamespaces ''abstract asset Car {} enum Color {} asset Car {}'' = [''Car'', ''Color'', ''Car'']
   \<and> execLoop False (''enum'' @ [CHR 0x0A, CHR 0x09] @ ''Color'' @ ''{ o RED }'')
       = ''Color'' # execLoop True ''{ o RED }''
   \<and> execLoop True ''asset A'' = execLoop True ''sset A''
   \<and> declarationStart ''asset Car {}'' ''Car'' '' {}''
   \<and> extractNamespaces ''my asset Car {}'' = [''Car'']"
proof -
  have d: "declarationStart ''asset Car {}'' ''Car'' '' {}''"
    by (simp add: matchAlternatives_iff [symmetric] declKeywords_def matchDeclared_def
        isWordChar_def isSpaceChar_def)
  have none: "\<forall>s \<in> set (suffixes ''my ''). s \<noteq> [] \<longrightarrow> (\<forall>n r. \<not> declarationStart (s @ ''asset Car {}'') n r)"
    by (simp add: matchAlternatives_iff [symmetric] declKeywords_def)
  have rest: "execLoop True '' {}'' = []"
    by (simp add: declKeywords_def isWordChar_def)
  have "extractNamespaces (''my '' @ ''asset Car {}'') = ''Car'' # execLoop True '' {}''"
    by (rule extraction_order [where decl = "''asset Car {}''" and name = "''Car''"
          and rest = "'' {}''" and front = "''my ''",
          THEN conjunct2, THEN conjunct2, THEN conjunct2, THEN conjunct2, THEN conjunct2,
          THEN conjunct1, THEN mp])
       (intro conjI d none, simp add: isWordChar_def)
  then have first: "extractNamespaces ''my asset Car {}'' = [''Car'']"
    by (simp only: rest append_Cons append_Nil)
  show ?thesis
    using extraction_order [where decls = "[(''abstract asset'', ''Car''), (''enum'', ''Color''), (''asset'', ''Car'')]"]
      extraction_order [where prev = False and c = "CHR ''e''"
        and cs = "''num'' @ [CHR 0x0A, CHR 0x09] @ ''Color'' @ ''{ o RED }''"
        and name = "''Color''" and rest = "''{ o RED }''"]
      extraction_order [where prev = True and c = "CHR ''a''" and cs = "''sset A''"]
      declaration_example d first
    by (simp add: declKeywords_def isWordChar_def)
qed

theorem extraction_keyword_counterexample:
  "extractNamespaces ''asset enum Foo'' = [''enum'']
   \<and> ''Foo'' \<notin> set (extractNamespaces ''asset enum Foo'')
   \<and> extractNamespaces (''asset '' @ [CHR 0xE9] @ ''cole {}'') = []"
  by (simp add: extractNamespaces_def declKeywords_def matchDeclared_def isWordChar_def
      isSpaceChar_def)

lemma importStep_append: "importStep result entry = result @ importStep [] entry"
  by (cases entry) (simp add: importStep_def)

lemma foldl_importStep: "foldl importStep result entries = result @ foldl importStep [] entries"
proof (induction entries arbitrary: result)
  case Nil
  then show ?case by simp
next
  case (Cons entry entries)
  have "foldl importStep result (entry # entries) = foldl importStep (importStep result entry) entries"
    by simp
  also have "\<dots> = importStep result entry @ foldl importStep [] entries"
    by (rule Cons.IH)
  also have "\<dots> = result @ importStep [] entry @ foldl importStep [] entries"
    by (subst importStep_append) simp
  also have "\<dots> = result @ foldl importStep (importStep [] entry) entries"
    by (subst (2) Cons.IH) simp
  finally show ?case by simp
qed

lemma generateCTOImports_Cons:
  "generateCTOImports (entry # entries) = importStep [] entry @ generateCTOImports entries"
  unfolding generateCTOImports_def by (simp add: foldl_importStep [of "importStep [] entry"])

lemma cto_prefix_inside:
  assumes "prefix ''.cto'' (c # cs @ ''.cto'')"
  shows "prefix ''.cto'' (c # cs)"
proof (cases cs)
  case Nil
  with assms show ?thesis by simp
next
  case c1: (Cons x1 cs1)
  show ?thesis
  proof (cases cs1)
    case Nil
    with assms c1 show ?thesis by simp
  next
    case c2: (Cons x2 cs2)
    show ?thesis
    proof (cases cs2)
      case Nil
      with assms c1 c2 show ?thesis by simp
    next
      case (Cons x3 cs3)
      with assms c1 c2 show ?thesis by simp
    qed
  qed
qed

lemma replaceFirst_cto:
  "\<not> sublist ''.cto'' base \<Longrightarrow> replaceFirst ''.cto'' [] (base @ ''.cto'') = base"
proof (induction base)
  case Nil
  then show ?case by simp
next
  case (Cons c cs)
  have "\<not> prefix ''.cto'' (c # cs @ ''.cto'')"
    using Cons.prems cto_prefix_inside prefix_imp_sublist by blast
  then have "replaceFirst ''.cto'' [] (c # cs @ ''.cto'') = c # replaceFirst ''.cto'' [] (cs @ ''.cto'')"
    by (subst replaceFirst.simps) (simp only: if_False)
  moreover have "\<not> sublist ''.cto'' cs"
    using Cons.prems by (meson sublist_Cons_right)
  then have "replaceFirst ''.cto'' [] (cs @ ''.cto'') = cs"
    by (rule Cons.IH)
  ultimately show ?case
    by (simp only: append_Cons)
qed

lemma stripExtension_cto: "stripExtension (base @ ''.cto'') = base"
  by (simp add: stripExtension_def)


text \<open>
  C6 (amended). Import synthesis goes through the entries in order and emits, for an entry
  with exactly one name, the line \<open>import org.accordproject.<basename>.<Name> from
  https://models.accordproject.org/accordproject/<filename>\<close> and a line feed; for an entry
  with more than one name, the brace form with the names joined by a comma and a space, in
  their order; and nothing for an entry without names. The basename is the file name
  without its first occurrence of \<open>.cto\<close>; for a file name that ends in \<open>.cto\<close> and has no
  other occurrence of it, that is the file name with its extension stripped.
\<close>

theorem import_lines:
  "generateCTOImports [] = []
   \<and> generateCTOImports ((key, []) # entries) = generateCTOImports entries
   \<and> generateCTOImports ((key, [name]) # entries) =
       ''import org.accordproject.'' @ replaceFirst ''.cto'' [] key @ ''.'' @ name
         @ '' from https://models.accordproject.org/accordproject/'' @ key @ [CHR 0x0A]
         @ generateCTOImports entries
   \<and> generateCTOImports ((key, name1 # name2 # names) # entries) =
       ''import org.accordproject.'' @ replaceFirst ''.cto'' [] key @ ''.{ ''
         @ join '', '' (name1 # name2 # names)
         @ '' } from https://models.accordproject.org/accordproject/'' @ key @ [CHR 0x0A]
         @ generateCTOImports entries
   \<and> (\<not> sublist ''.cto'' base \<longrightarrow>
        replaceFirst ''.cto'' [] (base @ ''.cto'') = base
        \<and> stripExtension (base @ ''.cto'') = base)"
proof -
  have "generateCTOImports [] = []"
    by (simp add: generateCTOImports_def)
  moreover have "generateCTOImports ((key, []) # entries) = generateCTOImports entries"
    by (simp add: generateCTOImports_Cons importStep_def)
  moreover have "generateCTOImports ((key, [name]) # entries) =
       ''import org.accordproject.'' @ replaceFirst ''.cto'' [] key @ ''.'' @ name
         @ '' from https://models.accordproject.org/accordproject/'' @ key @ [CHR 0x0A]
         @ generateCTOImports entries"
    by (simp add: generateCTOImports_Cons importStep_def)
  moreover have "generateCTOImports ((key, name1 # name2 # names) # entries) =
       ''import org.accordproject.'' @ replaceFirst ''.cto'' [] key @ ''.{ ''
         @ join '', '' (name1 # name2 # names)
         @ '' } from https://models.accordproject.org/accordproject/'' @ key @ [CHR 0x0A]
         @ generateCTOImports entries"
    by (simp add: generateCTOImports_Cons importStep_def)
  ultimately show ?thesis
    using replaceFirst_cto stripExtension_cto by blast
qed

theorem import_lines_witness:
  "\<not> sublist ''.cto'' ''auto''
   \<and> replaceFirst ''.cto'' [] ''auto.cto'' = ''auto''
   \<and> stripExtension ''auto.cto'' = ''auto''
   \<and> generateCTOImports [(''auto.cto'', [''Vehicle'']), (''empty.cto'', [])] =
       ''import org.accordproject.auto.Vehicle from https://models.accordproject.org/accordproject/auto.cto'' @ [CHR 0x0A]
   \<and> generateCTOImports [(''auto.cto'', [''Vehicle'', ''Driver'']), (''empty.cto'', [])] =
       ''import org.accordproject.auto.{ Vehicle, Driver } from https://models.accordproject.org/accordproject/auto.cto'' @ [CHR 0x0A]"
  using import_lines [of "''auto.cto''" "[(''empty.cto'', [])]" "''Vehicle''" "''Vehicle''"
      "''Driver''" "[]" "''auto''"]
    import_lines [of "''empty.cto''" "[]" "''Vehicle''" "''Vehicle''" "''Driver''" "[]" "''auto''"]
  by (simp add: sublist_code)

theorem import_basename_counterexample:
  "generateCTOImports [(''notes.md'', [''Note''])] =
     ''import org.accordproject.notes.md.Note from https://models.accordproject.org/accordproject/notes.md'' @ [CHR 0x0A]
   \<and> generateCTOImports [(''notes.md'', [''Note''])] \<noteq>
     ''import org.accordproject.'' @ stripExtension ''notes.md''
       @ ''.Note from https://models.accordproject.org/accordproject/notes.md'' @ [CHR 0x0A]"
  by (simp add: generateCTOImports_def importStep_def stripExtension_def)


section \<open>Properties of the similarity engine\<close>

subsection \<open>The sort\<close>

lemma mset_insertBy: "mset (insertBy cmp x ys) = add_mset x (mset ys)"
  by (induction ys) auto

lemma mset_insert_all:
  "mset (foldl (\<lambda>sorted x. insertBy cmp x sorted) acc xs) = mset acc + mset xs"
  by (induction xs arbitrary: acc) (auto simp: mset_insertBy)

lemma mset_stableSort: "mset (stableSort cmp xs) = mset xs"
  by (simp add: stableSort_def mset_insert_all)

lemma mset_positions:
  assumes "mset positions = mset [0..<length xs]"
  shows "mset (map (\<lambda>i. xs ! i) positions) = mset xs"
proof -
  have "mset (map (\<lambda>i. xs ! i) positions) = image_mset (\<lambda>i. xs ! i) (mset positions)"
    by simp
  also have "\<dots> = image_mset (\<lambda>i. xs ! i) (mset [0..<length xs])"
    by (simp only: assms)
  also have "\<dots> = mset (map (\<lambda>i. xs ! i) [0..<length xs])"
    by simp
  also have "map (\<lambda>i. xs ! i) [0..<length xs] = xs"
    by (rule map_nth)
  finally show ?thesis .
qed

lemma mset_sortBy: "mset (sortBy E cmp xs) = mset xs"
proof (cases "consistentOn cmp (set xs)")
  case True
  then show ?thesis
    by (simp add: sortBy_def mset_stableSort)
next
  case False
  show ?thesis
  proof (cases "mset (E (\<lambda>i j. cmp (xs ! i) (xs ! j)) (length xs)) = mset [0..<length xs]")
    case True
    from mset_positions [OF this] True False show ?thesis
      by (simp add: sortBy_def Let_def)
  next
    case no: False
    with False show ?thesis
      by (simp add: sortBy_def Let_def)
  qed
qed

lemma set_sortBy: "set (sortBy E cmp xs) = set xs"
  by (metis mset_sortBy set_mset_mset)

lemma sortBy_Nil: "sortBy E cmp [] = []"
  using mset_sortBy [of E cmp "[]"] by simp

lemma js_ge_trans: "js_ge a b \<Longrightarrow> js_ge b c \<Longrightarrow> js_ge a c"
  by (cases a; cases b; cases c) auto

lemma placed_before: "a \<noteq> NaN \<Longrightarrow> b \<noteq> NaN \<Longrightarrow> js_negative (js_sub b a) \<longleftrightarrow> \<not> js_ge b a"
  by (cases a; cases b) auto

lemma placed_behind: "a \<noteq> NaN \<Longrightarrow> b \<noteq> NaN \<Longrightarrow> js_positive (js_sub b a) \<longleftrightarrow> \<not> js_ge a b"
  by (cases a; cases b) auto

lemma js_ge_total: "a \<noteq> NaN \<Longrightarrow> b \<noteq> NaN \<Longrightarrow> js_ge a b \<or> js_ge b a"
  by (cases a; cases b) auto

lemma js_ge_refl: "a \<noteq> NaN \<Longrightarrow> js_ge a a"
  by (cases a) auto

lemma numbers_consistent:
  assumes "\<forall>e \<in> S. fst e \<noteq> NaN"
  shows "consistentOn bySimilarity S"
proof -
  have p: "precedes bySimilarity a b \<longleftrightarrow> \<not> js_ge (fst b) (fst a)"
    and f: "follows bySimilarity a b \<longleftrightarrow> \<not> js_ge (fst a) (fst b)"
    and t: "ties bySimilarity a b \<longleftrightarrow> js_ge (fst b) (fst a) \<and> js_ge (fst a) (fst b)"
    if "a \<in> S" and "b \<in> S" for a b
    using that assms placed_before [of "fst a" "fst b"] placed_behind [of "fst a" "fst b"]
    by (simp_all add: precedes_def follows_def ties_def bySimilarity_def)
  have refl: "\<forall>a \<in> S. ties bySimilarity a a"
    using t assms js_ge_refl by blast
  have sym: "\<forall>a \<in> S. \<forall>b \<in> S. ties bySimilarity a b \<longrightarrow> ties bySimilarity b a"
    using t by blast
  have trans: "(ties bySimilarity a b \<and> ties bySimilarity b c \<longrightarrow> ties bySimilarity a c) \<and>
        (precedes bySimilarity a b \<and> precedes bySimilarity b c \<longrightarrow> precedes bySimilarity a c) \<and>
        (follows bySimilarity a b \<and> follows bySimilarity b c \<longrightarrow> follows bySimilarity a c)"
    if abc: "a \<in> S" "b \<in> S" "c \<in> S" for a b c
  proof -
    have tot: "js_ge (fst x) (fst y) \<or> js_ge (fst y) (fst x)" if "x \<in> S" "y \<in> S" for x y
      using that assms js_ge_total by blast
    have "ties bySimilarity a b \<and> ties bySimilarity b c \<longrightarrow> ties bySimilarity a c"
      using t [OF abc(1,2)] t [OF abc(2,3)] t [OF abc(1,3)] js_ge_trans by blast
    moreover have "precedes bySimilarity a b \<and> precedes bySimilarity b c \<longrightarrow> precedes bySimilarity a c"
      using p [OF abc(1,2)] p [OF abc(2,3)] p [OF abc(1,3)] tot [OF abc(1,2)] tot [OF abc(2,3)]
        js_ge_trans by blast
    moreover have "follows bySimilarity a b \<and> follows bySimilarity b c \<longrightarrow> follows bySimilarity a c"
      using f [OF abc(1,2)] f [OF abc(2,3)] f [OF abc(1,3)] tot [OF abc(1,2)] tot [OF abc(2,3)]
        js_ge_trans by blast
    ultimately show ?thesis by blast
  qed
  show ?thesis
    unfolding consistentOn_def using refl sym trans by blast
qed

lemma sortBy_numbers:
  "\<forall>e \<in> set xs. fst e \<noteq> NaN \<Longrightarrow> sortBy E bySimilarity xs = stableSort bySimilarity xs"
  by (simp add: sortBy_def numbers_consistent)

lemma sorted_insertBy:
  assumes "sorted_wrt (\<lambda>a b. js_ge (fst a) (fst b)) ys"
    and "fst x \<noteq> NaN" and "\<forall>y \<in> set ys. fst y \<noteq> NaN"
  shows "sorted_wrt (\<lambda>a b. js_ge (fst a) (fst b)) (insertBy bySimilarity x ys)"
  using assms
proof (induction ys)
  case Nil
  then show ?case by simp
next
  case (Cons y ys)
  show ?case
  proof (cases "js_negative (bySimilarity x y)")
    case True
    then have xy: "js_ge (fst x) (fst y)"
      using Cons.prems js_ge_total [of "fst x" "fst y"] placed_before [of "fst x" "fst y"]
      by (auto simp: bySimilarity_def)
    then have "\<forall>z \<in> set ys. js_ge (fst x) (fst z)"
      using Cons.prems(1) js_ge_trans by auto
    with True xy Cons.prems(1) show ?thesis by simp
  next
    case False
    then have yx: "js_ge (fst y) (fst x)"
      using Cons.prems placed_before [of "fst x" "fst y"] by (auto simp: bySimilarity_def)
    have "sorted_wrt (\<lambda>a b. js_ge (fst a) (fst b)) (insertBy bySimilarity x ys)"
      using Cons by simp
    moreover have "set (insertBy bySimilarity x ys) = insert x (set ys)"
      by (metis mset_insertBy set_mset_mset set_mset_add_mset_insert)
    then have "\<forall>z \<in> set (insertBy bySimilarity x ys). js_ge (fst y) (fst z)"
      using Cons.prems(1) yx by simp
    ultimately show ?thesis
      using False by simp
  qed
qed

lemma sorted_insert_all:
  assumes "sorted_wrt (\<lambda>a b. js_ge (fst a) (fst b)) acc"
    and "\<forall>e \<in> set acc \<union> set xs. fst e \<noteq> NaN"
  shows "sorted_wrt (\<lambda>a b. js_ge (fst a) (fst b))
           (foldl (\<lambda>sorted x. insertBy bySimilarity x sorted) acc xs)"
  using assms
proof (induction xs arbitrary: acc)
  case Nil
  then show ?case by simp
next
  case (Cons x xs)
  have "sorted_wrt (\<lambda>a b. js_ge (fst a) (fst b)) (insertBy bySimilarity x acc)"
    using Cons.prems by (intro sorted_insertBy) auto
  moreover have "set (insertBy bySimilarity x acc) = insert x (set acc)"
    by (metis mset_insertBy set_mset_mset set_mset_add_mset_insert)
  then have "\<forall>e \<in> set (insertBy bySimilarity x acc) \<union> set xs. fst e \<noteq> NaN"
    using Cons.prems(2) by simp
  ultimately show ?case
    using Cons.IH by simp
qed

lemma sorted_sortBy:
  assumes "\<forall>e \<in> set xs. fst e \<noteq> NaN"
  shows "sorted_wrt (\<lambda>a b. js_ge (fst a) (fst b)) (sortBy E bySimilarity xs)"
  unfolding sortBy_numbers [OF assms] stableSort_def
  by (rule sorted_insert_all) (simp_all add: assms)

lemma isTopRanking_take:
  assumes "sorted_wrt (\<lambda>a b. js_ge (fst a) (fst b)) s" and "mset s = mset scored"
  shows "isTopRanking N scored (take N s)"
proof -
  have split: "mset scored = mset (take N s) + mset (drop N s)"
    using assms(2) by (metis append_take_drop_id mset_append)
  then have rest: "mset scored - mset (take N s) = mset (drop N s)"
    by simp
  have "sorted_wrt (\<lambda>a b. js_ge (fst a) (fst b)) (take N s @ drop N s)"
    using assms(1) by simp
  then have "\<forall>a \<in> set (take N s). \<forall>b \<in> set (drop N s). js_ge (fst a) (fst b)"
    unfolding sorted_wrt_append by blast
  moreover have "sorted_wrt (\<lambda>a b. js_ge (fst a) (fst b)) (take N s)"
    using assms(1) by (rule sorted_wrt_take)
  ultimately show ?thesis
    unfolding isTopRanking_def rest using split by simp
qed

lemma top_ranking:
  assumes "\<forall>e \<in> set scored. fst e \<noteq> NaN"
  shows "isTopRanking N scored (slice (sortBy E bySimilarity scored) 0 (Some (int N)))"
  unfolding slice_take
  by (rule isTopRanking_take) (simp_all add: sorted_sortBy assms mset_sortBy)

lemma top_bounded:
  "length (slice (sortBy E cmp scored) 0 (Some (int N))) \<le> N
   \<and> mset (slice (sortBy E cmp scored) 0 (Some (int N))) \<subseteq># mset scored"
proof -
  have "mset (take N (sortBy E cmp scored)) \<subseteq># mset (sortBy E cmp scored)"
    by (metis append_take_drop_id mset_append mset_subset_eq_add_left)
  then show ?thesis
    unfolding slice_take by (simp add: mset_sortBy)
qed

lemma top_selection:
  "length (slice (sortBy E bySimilarity scored) 0 (Some (int N))) \<le> N
   \<and> mset (slice (sortBy E bySimilarity scored) 0 (Some (int N))) \<subseteq># mset scored
   \<and> ((\<forall>e \<in> set scored. fst e \<noteq> NaN)
      \<longrightarrow> isTopRanking N scored (slice (sortBy E bySimilarity scored) 0 (Some (int N))))"
  using top_bounded [of E bySimilarity scored N] top_ranking [of scored N E] by blast


subsection \<open>The ranking\<close>

text \<open>
  C2 (amended). Whenever the scoring loop of a ranking function succeeds, the function
  returns the renderings of at most \<open>N\<close> of the scored entries, and every list it returns has
  at most \<open>N\<close> entries. When in addition no similarity is \<open>NaN\<close>, the entries are returned by
  non-increasing similarity and each of them is at least as similar to the query as every
  scored entry that is left out. This holds for \<^verbatim>\<open>fetchRelevantNamespaces\<close>,
  \<^verbatim>\<open>fetchRelevantTemplates\<close> and \<^verbatim>\<open>fetchRelevantGrammar\<close>, whatever the numeric library
  computes and however the engine sorts with an inconsistent comparator.
\<close>

theorem ranking_bounded_sorted:
  "(namespaceSimilarities M modelNamespaces promptEmbedding prov = Inr scored
    \<longrightarrow> (\<exists>selected.
          topNamespaces M E modelNamespaces promptEmbedding prov N = Inr selected
          \<and> fetchRelevantNamespaces M E modelNamespaces promptEmbedding prov N
              = Inr (map (\<lambda>(similarity, file, text). file @ [CHR 0x0A]) selected)
          \<and> length selected \<le> N
          \<and> mset selected \<subseteq># mset scored
          \<and> ((\<forall>e \<in> set scored. fst e \<noteq> NaN) \<longrightarrow> isTopRanking N scored selected)))
   \<and> (templateSimilarities M templateEmbeddings promptEmbedding prov = Inr scoredT
    \<longrightarrow> (\<exists>selected.
          topTemplates M E templateEmbeddings promptEmbedding prov N = Inr selected
          \<and> fetchRelevantTemplates M E templateEmbeddings promptEmbedding prov N
              = Inr (map renderTemplate selected)
          \<and> length selected \<le> N
          \<and> mset selected \<subseteq># mset scoredT
          \<and> ((\<forall>e \<in> set scoredT. fst e \<noteq> NaN) \<longrightarrow> isTopRanking N scoredT selected)))
   \<and> (grammarSimilarities M templateEmbeddings promptEmbedding prov = Inr scoredG
    \<longrightarrow> (\<exists>selected.
          topGrammar M E templateEmbeddings promptEmbedding prov N = Inr selected
          \<and> fetchRelevantGrammar M E templateEmbeddings promptEmbedding prov N
              = Inr (map renderGrammar selected)
          \<and> length selected \<le> N
          \<and> mset selected \<subseteq># mset scoredG
          \<and> ((\<forall>e \<in> set scoredG. fst e \<noteq> NaN) \<longrightarrow> isTopRanking N scoredG selected)))
   \<and> (fetchRelevantNamespaces M E modelNamespaces promptEmbedding prov N = Inr out
    \<longrightarrow> length out \<le> N)
   \<and> (fetchRelevantTemplates M E templateEmbeddings promptEmbedding prov N = Inr outT
    \<longrightarrow> length outT \<le> N)
   \<and> (fetchRelevantGrammar M E templateEmbeddings promptEmbedding prov N = Inr outG
    \<longrightarrow> length outG \<le> N)"
proof -
  have n: "\<exists>selected.
          topNamespaces M E modelNamespaces promptEmbedding prov N = Inr selected
          \<and> fetchRelevantNamespaces M E modelNamespaces promptEmbedding prov N
              = Inr (map (\<lambda>(similarity, file, text). file @ [CHR 0x0A]) selected)
          \<and> length selected \<le> N
          \<and> mset selected \<subseteq># mset scored
          \<and> ((\<forall>e \<in> set scored. fst e \<noteq> NaN) \<longrightarrow> isTopRanking N scored selected)"
    if "namespaceSimilarities M modelNamespaces promptEmbedding prov = Inr scored"
    using that top_selection [of E scored N]
    by (simp add: topNamespaces_def fetchRelevantNamespaces_def)
  have t: "\<exists>selected.
          topTemplates M E templateEmbeddings promptEmbedding prov N = Inr selected
          \<and> fetchRelevantTemplates M E templateEmbeddings promptEmbedding prov N
              = Inr (map renderTemplate selected)
          \<and> length selected \<le> N
          \<and> mset selected \<subseteq># mset scoredT
          \<and> ((\<forall>e \<in> set scoredT. fst e \<noteq> NaN) \<longrightarrow> isTopRanking N scoredT selected)"
    if "templateSimilarities M templateEmbeddings promptEmbedding prov = Inr scoredT"
    using that top_selection [of E scoredT N]
    by (simp add: topTemplates_def fetchRelevantTemplates_def)
  have g: "\<exists>selected.
          topGrammar M E templateEmbeddings promptEmbedding prov N = Inr selected
          \<and> fetchRelevantGrammar M E templateEmbeddings promptEmbedding prov N
              = Inr (map renderGrammar selected)
          \<and> length selected \<le> N
          \<and> mset selected \<subseteq># mset scoredG
          \<and> ((\<forall>e \<in> set scoredG. fst e \<noteq> NaN) \<longrightarrow> isTopRanking N scoredG selected)"
    if "grammarSimilarities M templateEmbeddings promptEmbedding prov = Inr scoredG"
    using that top_selection [of E scoredG N]
    by (simp add: topGrammar_def fetchRelevantGrammar_def)
  have ln: "length out \<le> N"
    if "fetchRelevantNamespaces M E modelNamespaces promptEmbedding prov N = Inr out"
    using that
    by (auto simp: top_bounded [THEN conjunct1] fetchRelevantNamespaces_def topNamespaces_def split: sum.splits)
  have lt: "length outT \<le> N"
    if "fetchRelevantTemplates M E templateEmbeddings promptEmbedding prov N = Inr outT"
    using that
    by (auto simp: top_bounded [THEN conjunct1] fetchRelevantTemplates_def topTemplates_def split: sum.splits)
  have lg: "length outG \<le> N"
    if "fetchRelevantGrammar M E templateEmbeddings promptEmbedding prov N = Inr outG"
    using that
    by (auto simp: top_bounded [THEN conjunct1] fetchRelevantGrammar_def topGrammar_def split: sum.splits)
  from n t g ln lt lg show ?thesis
    by (intro conjI impI)
qed

lemma sample_namespaceSimilarities:
  "namespaceSimilarities exactMath sampleModels [1, 0] ''openai''
     = Inr [(Num 0, ''a.cto'', ''asset A {}''), (Num 1, ''b.cto'', ''asset B {}'')]"
  by (simp add: sampleModels_def modelEmbeddingsFor_def cosineSimilarity_def exactMath_def)

lemma sample_templateSimilarities:
  "templateSimilarities exactMath sampleTemplates [1, 0] ''openai''
     = Inr [(Num 0, ''latedelivery'', ''import org.time'' @ [CHR 0x0A] @ ''Late delivery'' @ [CHR 0x0A],
               ''Late delivery'' @ [CHR 0x0A]),
            (Num 1, ''helloworld'', ''Hello'' @ [CHR 0x0A], ''Hello'' @ [CHR 0x0A])]"
  by (simp add: sampleTemplates_def templateEmbeddingsFor_def cosineSimilarity_def exactMath_def
      isLineTerminator_def Let_def)

lemma sample_grammarSimilarities:
  "grammarSimilarities exactMath sampleTemplates [1, 0] ''openai''
     = Inr [(Num 0, ''latedelivery'', Some ''Late delivery of goods'',
               ''import org.time'' @ [CHR 0x0A] @ ''Late delivery'' @ [CHR 0x0A]),
            (Num 1, ''helloworld'', None, ''Hello'' @ [CHR 0x0A])]"
  by (simp add: sampleTemplates_def templateEmbeddingsFor_def cosineSimilarity_def exactMath_def
      Let_def)

lemma sort_two: "sortBy E bySimilarity [(Num 0, x), (Num 1, y)] = [(Num 1, y), (Num 0, x)]"
proof -
  have "sortBy E bySimilarity [(Num 0, x), (Num 1, y)] = stableSort bySimilarity [(Num 0, x), (Num 1, y)]"
    by (rule sortBy_numbers) simp
  then show ?thesis
    by (simp add: stableSort_def bySimilarity_def)
qed

theorem ranking_bounded_sorted_witness:
  "namespaceSimilarities exactMath sampleModels [1, 0] ''openai''
     = Inr [(Num 0, ''a.cto'', ''asset A {}''), (Num 1, ''b.cto'', ''asset B {}'')]
   \<and> fetchRelevantNamespaces exactMath keepsOrder sampleModels [1, 0] ''openai'' 1
       = Inr [''b.cto'' @ [CHR 0x0A]]
   \<and> isTopRanking 1 [(Num 0, ''a.cto'', ''asset A {}''), (Num 1, ''b.cto'', ''asset B {}'')]
        [(Num 1, ''b.cto'', ''asset B {}'')]
   \<and> fetchRelevantTemplates exactMath keepsOrder sampleTemplates [1, 0] ''openai'' 1
       = Inr [''Template: helloworld'' @ [CHR 0x0A] @ ''Template grammar: Hello'' @ [CHR 0x0A, CHR 0x0A]
               @ ''Corresponding model: Hello'' @ [CHR 0x0A, CHR 0x0A]]
   \<and> isTopRanking 1
        [(Num 0, ''latedelivery'', ''import org.time'' @ [CHR 0x0A] @ ''Late delivery'' @ [CHR 0x0A],
            ''Late delivery'' @ [CHR 0x0A]),
         (Num 1, ''helloworld'', ''Hello'' @ [CHR 0x0A], ''Hello'' @ [CHR 0x0A])]
        [(Num 1, ''helloworld'', ''Hello'' @ [CHR 0x0A], ''Hello'' @ [CHR 0x0A])]
   \<and> fetchRelevantGrammar exactMath keepsOrder sampleTemplates [1, 0] ''openai'' 1
       = Inr [''Template sample: undefined'' @ [CHR 0x0A] @ '' and corresponding grammar: Hello''
               @ [CHR 0x0A, CHR 0x0A]]
   \<and> isTopRanking 1
        [(Num 0, ''latedelivery'', Some ''Late delivery of goods'',
            ''import org.time'' @ [CHR 0x0A] @ ''Late delivery'' @ [CHR 0x0A]),
         (Num 1, ''helloworld'', None, ''Hello'' @ [CHR 0x0A])]
        [(Num 1, ''helloworld'', None, ''Hello'' @ [CHR 0x0A])]
   \<and> length [''b.cto'' @ [CHR 0x0A]] \<le> (1::nat)"
proof -
  note r = ranking_bounded_sorted [where M = exactMath and E = keepsOrder
      and modelNamespaces = sampleModels
      and templateEmbeddings = sampleTemplates and promptEmbedding = "[1, 0]"
      and prov = "''openai''" and N = 1
      and scored = "[(Num 0, ''a.cto'', ''asset A {}''), (Num 1, ''b.cto'', ''asset B {}'')]"
      and scoredT = "[(Num 0, ''latedelivery'',
            ''import org.time'' @ [CHR 0x0A] @ ''Late delivery'' @ [CHR 0x0A],
            ''Late delivery'' @ [CHR 0x0A]),
         (Num 1, ''helloworld'', ''Hello'' @ [CHR 0x0A], ''Hello'' @ [CHR 0x0A])]"
      and scoredG = "[(Num 0, ''latedelivery'', Some ''Late delivery of goods'',
            ''import org.time'' @ [CHR 0x0A] @ ''Late delivery'' @ [CHR 0x0A]),
         (Num 1, ''helloworld'', None, ''Hello'' @ [CHR 0x0A])]"
      and out = "[''b.cto'' @ [CHR 0x0A]]"]
  have tn: "topNamespaces exactMath keepsOrder sampleModels [1, 0] ''openai'' 1
      = Inr [(Num 1, ''b.cto'', ''asset B {}'')]"
    by (simp add: topNamespaces_def sample_namespaceSimilarities sort_two slice_def slice_index_def)
  have tt: "topTemplates exactMath keepsOrder sampleTemplates [1, 0] ''openai'' 1
      = Inr [(Num 1, ''helloworld'', ''Hello'' @ [CHR 0x0A], ''Hello'' @ [CHR 0x0A])]"
    by (simp add: topTemplates_def sample_templateSimilarities sort_two slice_def slice_index_def)
  have tg: "topGrammar exactMath keepsOrder sampleTemplates [1, 0] ''openai'' 1
      = Inr [(Num 1, ''helloworld'', None, ''Hello'' @ [CHR 0x0A])]"
    by (simp add: topGrammar_def sample_grammarSimilarities sort_two slice_def slice_index_def)
  show ?thesis
    using r tn tt tg sample_namespaceSimilarities sample_templateSimilarities
      sample_grammarSimilarities
    by (simp add: renderTemplate_def renderGrammar_def interpolate_def)
qed

lemma all_ties_consistent:
  "consistentOn bySimilarity {(NaN, x), (Num 1, y)}"
  by (simp add: consistentOn_def ties_def precedes_def follows_def bySimilarity_def)

theorem ranking_nan_counterexample:
  "namespaceSimilarities exactMath
     [(''zero.cto'', \<lparr>fileContent = ''asset Zero {}'', modelFileName = ''zero.cto'', gemini = None, openai = Some [0, 0]\<rparr>),
      (''one.cto'', \<lparr>fileContent = ''asset One {}'', modelFileName = ''one.cto'', gemini = None, openai = Some [1, 0]\<rparr>)]
     [1, 0] ''openai''
     = Inr [(NaN, ''zero.cto'', ''asset Zero {}''), (Num 1, ''one.cto'', ''asset One {}'')]
   \<and> fetchRelevantNamespaces exactMath keepsOrder
     [(''zero.cto'', \<lparr>fileContent = ''asset Zero {}'', modelFileName = ''zero.cto'', gemini = None, openai = Some [0, 0]\<rparr>),
      (''one.cto'', \<lparr>fileContent = ''asset One {}'', modelFileName = ''one.cto'', gemini = None, openai = Some [1, 0]\<rparr>)]
     [1, 0] ''openai'' 1
     = Inr [''zero.cto'' @ [CHR 0x0A]]
   \<and> topNamespaces exactMath keepsOrder
     [(''zero.cto'', \<lparr>fileContent = ''asset Zero {}'', modelFileName = ''zero.cto'', gemini = None, openai = Some [0, 0]\<rparr>),
      (''one.cto'', \<lparr>fileContent = ''asset One {}'', modelFileName = ''one.cto'', gemini = None, openai = Some [1, 0]\<rparr>)]
     [1, 0] ''openai'' 1
     = Inr [(NaN, ''zero.cto'', ''asset Zero {}'')]
   \<and> \<not> js_ge NaN (Num 1)"
  by (simp add: fetchRelevantNamespaces_def topNamespaces_def modelEmbeddingsFor_def
      cosineSimilarity_def exactMath_def sortBy_def all_ties_consistent stableSort_def
      bySimilarity_def slice_def slice_index_def)


lemma modelEmbeddingsFor_eq:
  "modelEmbeddingsFor prov obj =
     (if prov = ''gemini'' then gemini obj else if prov = ''openai'' then openai obj else None)"
  by (simp add: modelEmbeddingsFor_def)

lemma templateEmbeddingsFor_eq:
  "templateEmbeddingsFor prov t =
     (case grammar t of None \<Rightarrow> None
      | Some g \<Rightarrow> if prov = ''gemini'' then grammarGemini g
                  else if prov = ''openai'' then grammarOpenai g else None)"
  by (simp add: templateEmbeddingsFor_def split: option.splits)

lemma namespaceSimilarities_sources:
  "namespaceSimilarities M corpus q prov = Inr sims \<Longrightarrow>
   \<forall>e \<in> set sims. \<exists>obj. (fst (snd e), obj) \<in> set corpus \<and> modelEmbeddingsFor prov obj \<noteq> None"
  (is "_ \<Longrightarrow> \<forall>e \<in> _. ?P e corpus")
proof (induction corpus arbitrary: sims)
  case Nil
  then show ?case by simp
next
  case (Cons entry corpus)
  obtain fname obj where entry: "entry = (fname, obj)"
    by (cases entry)
  show ?case
  proof (cases "modelEmbeddingsFor prov obj")
    case None
    with Cons.prems entry have "\<forall>e \<in> set sims. ?P e corpus"
      by (intro Cons.IH) simp
    then show ?thesis by (meson list.set_intros(2))
  next
    case (Some emb)
    with Cons.prems entry obtain s rest where
      "namespaceSimilarities M corpus q prov = Inr rest" and "sims = (s, fname, fileContent obj) # rest"
      by (auto split: sum.splits)
    with Cons.IH [of rest] Some entry show ?thesis by (fastforce simp del: not_None_eq)
  qed
qed

lemma namespaceSimilarities_none:
  "\<forall>entry \<in> set corpus. modelEmbeddingsFor prov (snd entry) = None \<Longrightarrow>
   namespaceSimilarities M corpus q prov = Inr []"
  by (induction corpus) auto

lemma templateSimilarities_sources:
  "templateSimilarities M corpus q prov = Inr sims \<Longrightarrow>
   \<forall>e \<in> set sims. \<exists>t g. (fst (snd e), t) \<in> set corpus \<and> templateEmbeddingsFor prov t \<noteq> None
      \<and> grammar t = Some g
      \<and> snd (snd e) = (grammarContent g, removeImports (grammarContent g))"
  (is "_ \<Longrightarrow> \<forall>e \<in> _. ?P e corpus")
proof (induction corpus arbitrary: sims)
  case Nil
  then show ?case by simp
next
  case (Cons entry corpus)
  obtain name t where entry: "entry = (name, t)"
    by (cases entry)
  show ?case
  proof (cases "templateEmbeddingsFor prov t")
    case None
    with Cons.prems entry have "\<forall>e \<in> set sims. ?P e corpus"
      by (intro Cons.IH) simp
    then show ?thesis by (meson list.set_intros(2))
  next
    case (Some emb)
    then obtain g where g: "grammar t = Some g"
      by (auto simp: templateEmbeddingsFor_def split: option.splits)
    with Some Cons.prems entry obtain s rest where
      "templateSimilarities M corpus q prov = Inr rest"
      and "sims = (s, name, grammarContent g, removeImports (grammarContent g)) # rest"
      by (auto simp: Let_def split: sum.splits)
    with Cons.IH [of rest] Some entry g show ?thesis by (fastforce simp del: not_None_eq)
  qed
qed

lemma templateSimilarities_none:
  "\<forall>entry \<in> set corpus. templateEmbeddingsFor prov (snd entry) = None \<Longrightarrow>
   templateSimilarities M corpus q prov = Inr []"
  by (induction corpus) auto

lemma grammarSimilarities_sources:
  "grammarSimilarities M corpus q prov = Inr sims \<Longrightarrow>
   \<forall>e \<in> set sims. \<exists>t. (fst (snd e), t) \<in> set corpus \<and> templateEmbeddingsFor prov t \<noteq> None"
  (is "_ \<Longrightarrow> \<forall>e \<in> _. ?P e corpus")
proof (induction corpus arbitrary: sims)
  case Nil
  then show ?case by simp
next
  case (Cons entry corpus)
  obtain name t where entry: "entry = (name, t)"
    by (cases entry)
  show ?case
  proof (cases "templateEmbeddingsFor prov t")
    case None
    with Cons.prems entry have "\<forall>e \<in> set sims. ?P e corpus"
      by (intro Cons.IH) simp
    then show ?thesis by (meson list.set_intros(2))
  next
    case (Some emb)
    with Cons.prems entry obtain e rest where
      "grammarSimilarities M corpus q prov = Inr rest" and "sims = e # rest" and "fst (snd e) = name"
      by (auto simp: Let_def split: sum.splits)
    with Cons.IH [of rest] Some entry show ?thesis by (fastforce simp del: not_None_eq)
  qed
qed

lemma grammarSimilarities_none:
  "\<forall>entry \<in> set corpus. templateEmbeddingsFor prov (snd entry) = None \<Longrightarrow>
   grammarSimilarities M corpus q prov = Inr []"
  by (induction corpus) auto

lemma set_selected: "set (slice (sortBy E cmp sims) 0 (Some (int N))) \<subseteq> set sims"
  unfolding slice_take using set_take_subset [of N "sortBy E cmp sims"] by (simp add: set_sortBy)

lemma slice_Nil: "slice [] 0 (Some (int N)) = []"
  by (simp add: slice_take)

text \<open>
  C3 (amended). A ranking function returns only renderings of corpus items that have an
  embedding array stored for the requested provider: an item without one (the provider is
  neither \<open>gemini\<close> nor \<open>openai\<close>, or the item has no array for it) is left out and not scored.
  An empty corpus, or one in which no item has an array for the provider, gives the empty
  sequence and no error.
\<close>

theorem unembedded_items_filtered:
  "(fetchRelevantNamespaces M E modelNamespaces promptEmbedding prov N = Inr out \<longrightarrow>
      (\<forall>line \<in> set out. \<exists>fname obj. (fname, obj) \<in> set modelNamespaces
          \<and> modelEmbeddingsFor prov obj \<noteq> None \<and> line = fname @ [CHR 0x0A]))
   \<and> ((\<forall>entry \<in> set modelNamespaces. modelEmbeddingsFor prov (snd entry) = None) \<longrightarrow>
        fetchRelevantNamespaces M E modelNamespaces promptEmbedding prov N = Inr [])
   \<and> (topTemplates M E templateEmbeddings promptEmbedding prov N = Inr selected \<longrightarrow>
        fetchRelevantTemplates M E templateEmbeddings promptEmbedding prov N
          = Inr (map renderTemplate selected)
        \<and> (\<forall>e \<in> set selected. \<exists>t. (fst (snd e), t) \<in> set templateEmbeddings
              \<and> templateEmbeddingsFor prov t \<noteq> None))
   \<and> ((\<forall>entry \<in> set templateEmbeddings. templateEmbeddingsFor prov (snd entry) = None) \<longrightarrow>
        fetchRelevantTemplates M E templateEmbeddings promptEmbedding prov N = Inr [])
   \<and> (topGrammar M E templateEmbeddings promptEmbedding prov N = Inr selectedG \<longrightarrow>
        fetchRelevantGrammar M E templateEmbeddings promptEmbedding prov N
          = Inr (map renderGrammar selectedG)
        \<and> (\<forall>e \<in> set selectedG. \<exists>t. (fst (snd e), t) \<in> set templateEmbeddings
              \<and> templateEmbeddingsFor prov t \<noteq> None))
   \<and> ((\<forall>entry \<in> set templateEmbeddings. templateEmbeddingsFor prov (snd entry) = None) \<longrightarrow>
        fetchRelevantGrammar M E templateEmbeddings promptEmbedding prov N = Inr [])
   \<and> modelEmbeddingsFor prov obj =
       (if prov = ''gemini'' then gemini obj else if prov = ''openai'' then openai obj else None)
   \<and> templateEmbeddingsFor prov t =
       (case grammar t of None \<Rightarrow> None
        | Some g \<Rightarrow> if prov = ''gemini'' then grammarGemini g
                    else if prov = ''openai'' then grammarOpenai g else None)"
proof -
  have n1: "\<forall>line \<in> set out. \<exists>fname obj. (fname, obj) \<in> set modelNamespaces
          \<and> modelEmbeddingsFor prov obj \<noteq> None \<and> line = fname @ [CHR 0x0A]"
    if "fetchRelevantNamespaces M E modelNamespaces promptEmbedding prov N = Inr out"
  proof -
    from that obtain sims where
      sims: "namespaceSimilarities M modelNamespaces promptEmbedding prov = Inr sims"
      and out: "out = map (\<lambda>(similarity, fname, text). fname @ [CHR 0x0A])
                  (slice (sortBy E bySimilarity sims) 0 (Some (int N)))"
      by (auto simp: fetchRelevantNamespaces_def topNamespaces_def split: sum.splits)
    show ?thesis
    proof
      fix line assume "line \<in> set out"
      then obtain e where e: "e \<in> set sims" and line: "line = fst (snd e) @ [CHR 0x0A]"
        using out set_selected [of E bySimilarity sims N] by (auto simp: case_prod_beta)
      with namespaceSimilarities_sources [OF sims] show
        "\<exists>fname obj. (fname, obj) \<in> set modelNamespaces \<and> modelEmbeddingsFor prov obj \<noteq> None
           \<and> line = fname @ [CHR 0x0A]"
        by blast
    qed
  qed
  have n2: "fetchRelevantNamespaces M E modelNamespaces promptEmbedding prov N = Inr []"
    if "\<forall>entry \<in> set modelNamespaces. modelEmbeddingsFor prov (snd entry) = None"
    using namespaceSimilarities_none [OF that]
    by (simp add: fetchRelevantNamespaces_def topNamespaces_def sortBy_Nil slice_Nil)
  have t1: "fetchRelevantTemplates M E templateEmbeddings promptEmbedding prov N
          = Inr (map renderTemplate selected)
        \<and> (\<forall>e \<in> set selected. \<exists>t. (fst (snd e), t) \<in> set templateEmbeddings
              \<and> templateEmbeddingsFor prov t \<noteq> None)"
    if "topTemplates M E templateEmbeddings promptEmbedding prov N = Inr selected"
  proof -
    from that obtain sims where
      sims: "templateSimilarities M templateEmbeddings promptEmbedding prov = Inr sims"
      and sel: "selected = slice (sortBy E bySimilarity sims) 0 (Some (int N))"
      by (auto simp: topTemplates_def split: sum.splits)
    have "set selected \<subseteq> set sims"
      unfolding sel by (rule set_selected)
    with templateSimilarities_sources [OF sims] that show ?thesis
      by (fastforce simp: fetchRelevantTemplates_def)
  qed
  have t2: "fetchRelevantTemplates M E templateEmbeddings promptEmbedding prov N = Inr []"
    if "\<forall>entry \<in> set templateEmbeddings. templateEmbeddingsFor prov (snd entry) = None"
    using templateSimilarities_none [OF that]
    by (simp add: fetchRelevantTemplates_def topTemplates_def sortBy_Nil slice_Nil)
  have g1: "fetchRelevantGrammar M E templateEmbeddings promptEmbedding prov N
          = Inr (map renderGrammar selectedG)
        \<and> (\<forall>e \<in> set selectedG. \<exists>t. (fst (snd e), t) \<in> set templateEmbeddings
              \<and> templateEmbeddingsFor prov t \<noteq> None)"
    if "topGrammar M E templateEmbeddings promptEmbedding prov N = Inr selectedG"
  proof -
    from that obtain sims where
      sims: "grammarSimilarities M templateEmbeddings promptEmbedding prov = Inr sims"
      and sel: "selectedG = slice (sortBy E bySimilarity sims) 0 (Some (int N))"
      by (auto simp: topGrammar_def split: sum.splits)
    have "set selectedG \<subseteq> set sims"
      unfolding sel by (rule set_selected)
    with grammarSimilarities_sources [OF sims] that show ?thesis
      by (fastforce simp: fetchRelevantGrammar_def)
  qed
  have g2: "fetchRelevantGrammar M E templateEmbeddings promptEmbedding prov N = Inr []"
    if "\<forall>entry \<in> set templateEmbeddings. templateEmbeddingsFor prov (snd entry) = None"
    using grammarSimilarities_none [OF that]
    by (simp add: fetchRelevantGrammar_def topGrammar_def sortBy_Nil slice_Nil)
  show ?thesis
    using n1 n2 t1 t2 g1 g2 modelEmbeddingsFor_eq [of prov obj] templateEmbeddingsFor_eq [of prov t]
    by (intro conjI impI) blast+
qed

theorem unembedded_items_filtered_witness:
  "fetchRelevantNamespaces exactMath keepsOrder sampleModels [1, 0] ''gemini'' 4 = Inr [''c.cto'' @ [CHR 0x0A]]
   \<and> modelEmbeddingsFor ''gemini''
        \<lparr>fileContent = ''asset A {}'', modelFileName = ''a.cto'', gemini = None, openai = Some [0, 1]\<rparr>
       = None
   \<and> fetchRelevantNamespaces exactMath keepsOrder sampleModels [1, 0] ''cohere'' 4 = Inr []
   \<and> fetchRelevantNamespaces exactMath keepsOrder [] [1, 0] ''openai'' 4 = Inr []
   \<and> fetchRelevantTemplates exactMath keepsOrder sampleTemplates [1, 0] ''gemini'' 4 = Inr []
   \<and> fetchRelevantGrammar exactMath keepsOrder sampleTemplates [1, 0] ''gemini'' 4 = Inr []
   \<and> templateEmbeddingsFor ''openai'' \<lparr>grammar = None, sampleContent = None\<rparr> = None"
proof -
  have "fetchRelevantNamespaces exactMath keepsOrder sampleModels [1, 0] ''gemini'' 4 = Inr [''c.cto'' @ [CHR 0x0A]]"
    by (simp add: fetchRelevantNamespaces_def topNamespaces_def sampleModels_def
        modelEmbeddingsFor_def cosineSimilarity_def exactMath_def sortBy_def consistentOn_def
        ties_def precedes_def follows_def bySimilarity_def stableSort_def slice_def
        slice_index_def)
  moreover have "fetchRelevantNamespaces exactMath keepsOrder sampleModels [1, 0] ''cohere'' 4 = Inr []"
    using unembedded_items_filtered [where M = exactMath and E = keepsOrder and modelNamespaces = sampleModels and prov = "''cohere''"
        and promptEmbedding = "[1, 0]" and N = 4]
    by (simp add: sampleModels_def modelEmbeddingsFor_def)
  moreover have "fetchRelevantNamespaces exactMath keepsOrder [] [1, 0] ''openai'' 4 = Inr []"
    using unembedded_items_filtered [where M = exactMath and E = keepsOrder and modelNamespaces = "[]" and prov = "''openai''"
        and promptEmbedding = "[1, 0]" and N = 4]
    by simp
  moreover have "fetchRelevantTemplates exactMath keepsOrder sampleTemplates [1, 0] ''gemini'' 4 = Inr []"
    and "fetchRelevantGrammar exactMath keepsOrder sampleTemplates [1, 0] ''gemini'' 4 = Inr []"
    using unembedded_items_filtered [where M = exactMath and E = keepsOrder and templateEmbeddings = sampleTemplates
        and prov = "''gemini''" and promptEmbedding = "[1, 0]" and N = 4]
    by (simp_all add: sampleTemplates_def templateEmbeddingsFor_def)
  moreover have "modelEmbeddingsFor ''gemini''
        \<lparr>fileContent = ''asset A {}'', modelFileName = ''a.cto'', gemini = None, openai = Some [0, 1]\<rparr>
       = None"
    using unembedded_items_filtered [where prov = "''gemini''"
        and obj = "\<lparr>fileContent = ''asset A {}'', modelFileName = ''a.cto'', gemini = None, openai = Some [0, 1]\<rparr>"]
    by simp
  moreover have "templateEmbeddingsFor ''openai'' \<lparr>grammar = None, sampleContent = None\<rparr> = None"
    using unembedded_items_filtered [where prov = "''openai''"
        and t = "\<lparr>grammar = None, sampleContent = None\<rparr>"]
    by simp
  ultimately show ?thesis by simp
qed

theorem empty_embedding_counterexample:
  "modelEmbeddingsFor ''openai''
     \<lparr>fileContent = ''asset A {}'', modelFileName = ''a.cto'', gemini = None, openai = Some []\<rparr>
     = Some []
   \<and> fetchRelevantNamespaces exactMath keepsOrder
     [(''a.cto'', \<lparr>fileContent = ''asset A {}'', modelFileName = ''a.cto'', gemini = None, openai = Some []\<rparr>)]
     [1, 0] ''openai'' 4 = Inl RangeError
   \<and> fetchRelevantNamespaces exactMath keepsOrder
     [(''a.cto'', \<lparr>fileContent = ''asset A {}'', modelFileName = ''a.cto'', gemini = None, openai = Some []\<rparr>)]
     [1, 0] ''openai'' 4 \<noteq> Inr []"
  by (simp add: fetchRelevantNamespaces_def topNamespaces_def modelEmbeddingsFor_def
      cosineSimilarity_def exactMath_def)


subsection \<open>The cleaning of the model content\<close>

text \<open>
  What the pattern removes: a line that begins with \<open>import \<close>, has no carriage return and
  is ended by a line feed goes away with its line feed, and a line without \<open>import \<close> stays.
  A rendered block shows the grammar content as it is stored and, as the model, that content
  after the removal.
\<close>

lemma prefix_before:
  assumes "prefix p (xs @ n # rest)" and "n \<notin> set p"
  shows "prefix p xs"
proof -
  from assms(1) consider "prefix p xs" | us where "p = xs @ us" and "prefix us (n # rest)"
    unfolding prefix_append by blast
  then show ?thesis
  proof cases
    case 1
    then show ?thesis .
  next
    case 2
    with assms(2) have "us = []"
      by (cases us) auto
    with 2 show ?thesis by simp
  qed
qed

lemma removeImports_import_line:
  assumes "\<forall>c \<in> set body. \<not> isLineTerminator c"
  shows "removeImports (''import '' @ body @ CHR 0x0A # rest) = removeImports rest"
proof -
  have "dropWhile (\<lambda>x. \<not> isLineTerminator x) (body @ CHR 0x0A # rest) = CHR 0x0A # rest"
    using assms by (simp add: dropWhile_append2 isLineTerminator_def)
  then show ?thesis by simp
qed

lemma removeImports_other_line:
  assumes "\<not> sublist ''import '' l"
  shows "removeImports (l @ CHR 0x0A # rest) = l @ CHR 0x0A # removeImports rest"
  using assms
proof (induction l)
  case Nil
  then show ?case by simp
next
  case (Cons c cs)
  have "\<not> prefix ''import '' (c # cs)"
    using Cons.prems prefix_imp_sublist by blast
  then have "\<not> prefix ''import '' ((c # cs) @ CHR 0x0A # rest)"
    using prefix_before [of "''import ''" "c # cs" "CHR 0x0A" rest] by auto
  then have "removeImports ((c # cs) @ CHR 0x0A # rest) = c # removeImports (cs @ CHR 0x0A # rest)"
    by (simp only: append_Cons removeImports.simps if_False)
  moreover have "\<not> sublist ''import '' cs"
    using Cons.prems by (meson sublist_Cons_right)
  then have "removeImports (cs @ CHR 0x0A # rest) = cs @ CHR 0x0A # removeImports rest"
    by (rule Cons.IH)
  ultimately show ?case by simp
qed

lemma removeImports_unlines:
  assumes "\<forall>l \<in> set ls. if prefix ''import '' l then \<forall>c \<in> set l. \<not> isLineTerminator c
                          else \<not> sublist ''import '' l"
  shows "removeImports (unlines ls) = unlines (filter (\<lambda>l. \<not> prefix ''import '' l) ls)"
  using assms
proof (induction ls)
  case Nil
  then show ?case by (simp add: unlines_def)
next
  case (Cons l ls)
  have IH: "removeImports (unlines ls) = unlines (filter (\<lambda>l. \<not> prefix ''import '' l) ls)"
    using Cons by simp
  show ?case
  proof (cases "prefix ''import '' l")
    case True
    then obtain body where l: "l = ''import '' @ body"
      by (auto simp: prefix_def)
    with Cons.prems True have "\<forall>c \<in> set body. \<not> isLineTerminator c"
      by auto
    then have "removeImports (''import '' @ body @ CHR 0x0A # unlines ls) = removeImports (unlines ls)"
      by (rule removeImports_import_line)
    with True IH l show ?thesis
      by (simp add: unlines_def)
  next
    case False
    with Cons.prems have "\<not> sublist ''import '' l"
      by simp
    then have "removeImports (l @ CHR 0x0A # unlines ls) = l @ CHR 0x0A # removeImports (unlines ls)"
      by (rule removeImports_other_line)
    with False IH show ?thesis
      by (simp add: unlines_def)
  qed
qed

lemma rendered_template_blocks:
  assumes "fetchRelevantTemplates M E templateEmbeddings promptEmbedding prov N = Inr out"
    and "block \<in> set out"
  shows "\<exists>name t g.
            (name, t) \<in> set templateEmbeddings \<and> grammar t = Some g
            \<and> block = ''Template: '' @ name @ [CHR 0x0A]
                @ ''Template grammar: '' @ grammarContent g @ [CHR 0x0A]
                @ ''Corresponding model: '' @ removeImports (grammarContent g) @ [CHR 0x0A]"
proof -
  from assms(1) obtain sims where
    sims: "templateSimilarities M templateEmbeddings promptEmbedding prov = Inr sims"
    and out: "out = map renderTemplate (slice (sortBy E bySimilarity sims) 0 (Some (int N)))"
    by (auto simp: fetchRelevantTemplates_def topTemplates_def split: sum.splits)
  from assms(2) out obtain e where e: "e \<in> set sims" and b: "block = renderTemplate e"
    using set_selected [of E bySimilarity sims N] by auto
  from templateSimilarities_sources [OF sims] e obtain t g where
    "(fst (snd e), t) \<in> set templateEmbeddings" and "grammar t = Some g"
    and "snd (snd e) = (grammarContent g, removeImports (grammarContent g))"
    by blast
  then show ?thesis
    using b by (cases e) (auto simp: renderTemplate_def)
qed

text \<open>
  C9. The comment in \<^verbatim>\<open>fetchRelevantTemplates\<close> says that the model content is cleaned of all
  import statements, and the grammar content is embedded as it is stored. The pattern asks
  for a line feed right behind the characters of the line, so an import line that is ended
  by a carriage return and a line feed, or that is the last line and has no line feed, is
  not removed: the rendered context shows it under \<open>Corresponding model\<close>. The same line ended
  by a line feed alone is removed.
\<close>

theorem import_line_kept:
  "removeImports (''import org.time'' @ [CHR 0x0D, CHR 0x0A] @ ''Late delivery'' @ [CHR 0x0D, CHR 0x0A])
     = ''import org.time'' @ [CHR 0x0D, CHR 0x0A] @ ''Late delivery'' @ [CHR 0x0D, CHR 0x0A]
   \<and> removeImports (''Late delivery'' @ [CHR 0x0A] @ ''import org.time'')
     = ''Late delivery'' @ [CHR 0x0A] @ ''import org.time''
   \<and> removeImports (''import org.time'' @ [CHR 0x0A] @ ''Late delivery'' @ [CHR 0x0A])
     = ''Late delivery'' @ [CHR 0x0A]
   \<and> fetchRelevantTemplates exactMath keepsOrder
       [(''latedelivery'',
         \<lparr>grammar = Some \<lparr>grammarContent =
              ''import org.time'' @ [CHR 0x0D, CHR 0x0A] @ ''Late delivery'' @ [CHR 0x0D, CHR 0x0A],
            grammarGemini = None, grammarOpenai = Some [1, 0]\<rparr>,
          sampleContent = None\<rparr>)]
       [1, 0] ''openai'' 4
     = Inr [''Template: latedelivery'' @ [CHR 0x0A]
            @ ''Template grammar: import org.time'' @ [CHR 0x0D, CHR 0x0A] @ ''Late delivery''
            @ [CHR 0x0D, CHR 0x0A] @ [CHR 0x0A]
            @ ''Corresponding model: import org.time'' @ [CHR 0x0D, CHR 0x0A] @ ''Late delivery''
            @ [CHR 0x0D, CHR 0x0A] @ [CHR 0x0A]]"
proof -
  have kept: "removeImports (''import org.time'' @ [CHR 0x0D, CHR 0x0A] @ ''Late delivery'' @ [CHR 0x0D, CHR 0x0A])
     = ''import org.time'' @ [CHR 0x0D, CHR 0x0A] @ ''Late delivery'' @ [CHR 0x0D, CHR 0x0A]"
    by (simp add: isLineTerminator_def)
  have last: "removeImports (''Late delivery'' @ [CHR 0x0A] @ ''import org.time'')
     = ''Late delivery'' @ [CHR 0x0A] @ ''import org.time''"
    by (simp add: isLineTerminator_def)
  have removed: "removeImports (''import org.time'' @ [CHR 0x0A] @ ''Late delivery'' @ [CHR 0x0A])
     = ''Late delivery'' @ [CHR 0x0A]"
    by (simp add: isLineTerminator_def)
  have one: "sortBy keepsOrder bySimilarity [(Num 1, x)] = [(Num 1, x)]" for x :: "string \<times> string \<times> string"
    by (simp add: sortBy_numbers stableSort_def)
  have "templateSimilarities exactMath
       [(''latedelivery'',
         \<lparr>grammar = Some \<lparr>grammarContent =
              ''import org.time'' @ [CHR 0x0D, CHR 0x0A] @ ''Late delivery'' @ [CHR 0x0D, CHR 0x0A],
            grammarGemini = None, grammarOpenai = Some [1, 0]\<rparr>,
          sampleContent = None\<rparr>)]
       [1, 0] ''openai''
     = Inr [(Num 1, ''latedelivery'',
         ''import org.time'' @ [CHR 0x0D, CHR 0x0A] @ ''Late delivery'' @ [CHR 0x0D, CHR 0x0A],
         ''import org.time'' @ [CHR 0x0D, CHR 0x0A] @ ''Late delivery'' @ [CHR 0x0D, CHR 0x0A])]"
    using kept by (simp add: templateEmbeddingsFor_def cosineSimilarity_def exactMath_def Let_def)
  then have "fetchRelevantTemplates exactMath keepsOrder
       [(''latedelivery'',
         \<lparr>grammar = Some \<lparr>grammarContent =
              ''import org.time'' @ [CHR 0x0D, CHR 0x0A] @ ''Late delivery'' @ [CHR 0x0D, CHR 0x0A],
            grammarGemini = None, grammarOpenai = Some [1, 0]\<rparr>,
          sampleContent = None\<rparr>)]
       [1, 0] ''openai'' 4
     = Inr [''Template: latedelivery'' @ [CHR 0x0A]
            @ ''Template grammar: import org.time'' @ [CHR 0x0D, CHR 0x0A] @ ''Late delivery''
            @ [CHR 0x0D, CHR 0x0A] @ [CHR 0x0A]
            @ ''Corresponding model: import org.time'' @ [CHR 0x0D, CHR 0x0A] @ ''Late delivery''
            @ [CHR 0x0D, CHR 0x0A] @ [CHR 0x0A]]"
    by (simp add: fetchRelevantTemplates_def topTemplates_def one slice_def slice_index_def
        renderTemplate_def)
  with kept last removed show ?thesis
    by (intro conjI)
qed


end
